theory Spec2Isabelle
  imports Main
begin

section \<open>Data of the job-control engine\<close>

text \<open>
  The model follows \<^verbatim>\<open>src/jobs.c\<close> (job table, foreground record, poller, fg and bg)
  and the executor part of \<^verbatim>\<open>src/hop.c\<close> (child set-up, synchronous and asynchronous
  pipelines, builtin dispatch).  The C statics become the fields of one record that is
  passed through every operation.  Process ids, job numbers and status codes are C
  \<^verbatim>\<open>int\<close>s of 32 bits and are modelled by \<^typ>\<open>int\<close>, with the reduction to 32 bits
  written out where the program computes with them: the increment of the job counter
  and the conversion of the result of \<^verbatim>\<open>atoi\<close>.
\<close>

text \<open>
  \<open>to_int32 x\<close> is the value a 32-bit \<^verbatim>\<open>int\<close> in two's complement holds after \<open>x\<close> was
  stored in it: \<open>x\<close> itself from \<^verbatim>\<open>INT_MIN\<close> to \<^verbatim>\<open>INT_MAX\<close>, and \<open>x\<close> shifted by a
  multiple of \<open>2\<^sup>3\<^sup>2\<close> into that range otherwise.  The increment \<^verbatim>\<open>next_job_number++\<close> at
  \<^verbatim>\<open>INT_MAX\<close> is an overflow the C standard leaves undefined; the program as the
  Makefile builds it (gcc, no optimisation, no trapping) wraps to \<^verbatim>\<open>INT_MIN\<close>, and so
  does the model.
\<close>

definition to_int32 :: "int \<Rightarrow> int" where
  "to_int32 x = (x + 2147483648) mod 4294967296 - 2147483648"

definition MAX_CMDS :: int where
  "MAX_CMDS = 16"

definition MAX_BG_JOBS :: int where
  "MAX_BG_JOBS = 64"

text \<open>
  \<^verbatim>\<open>BgJob\<close>: the arrays \<^verbatim>\<open>pids\<close>, \<^verbatim>\<open>finished\<close>, \<^verbatim>\<open>stopped\<close> and \<^verbatim>\<open>stage_names\<close> have
  capacity \<^verbatim>\<open>MAX_CMDS\<close>; only the first \<^verbatim>\<open>npids\<close> entries are ever written after the
  \<^verbatim>\<open>memset\<close> or read, and the lists hold exactly those entries.
\<close>

record BgJob =
  job_num :: int
  npids :: int
  pids :: "int list"
  finished :: "bool list"
  stopped :: "bool list"
  cmd_name :: string
  stage_names :: "string list"
  last_status :: int

text \<open>
  What \<^verbatim>\<open>waitpid\<close> can answer: return value 0 (no change, only with \<^verbatim>\<open>WNOHANG\<close>),
  a negative return value, or a status that is stopped, continued, exited with a code,
  or killed by a signal.
\<close>

datatype wait_result =
  W_Nochange | W_Error | W_Stopped | W_Continued | W_Exited int | W_Signaled int

datatype wait_flag = WNOHANG | WUNTRACED | WCONTINUED

datatype signal = SIGCONT

datatype pgrp = Group int | Own_group

text \<open>
  The system calls of the shell process that the properties below talk about: the
  waits of the two foreground wait loops, signals sent, terminal hand-over and sleeps.
  \<open>Own_group\<close> stands for the value of \<^verbatim>\<open>getpgrp()\<close>.
\<close>

datatype syscall =
  Waitpid int "wait_flag set" | Kill int signal | Tcsetpgrp pgrp | Nanosleep nat

text \<open>
  The state of one process image: the statics of \<^verbatim>\<open>jobs.c\<close> (\<open>bg_jobs\<close> with
  \<^verbatim>\<open>bg_job_count\<close> as its length, \<open>next_job_number\<close>, the foreground record), the
  statics of the executor (\<open>last_fg_name\<close>, \<open>g_recent_stop\<close>), and what the process has
  done so far: the lines it printed on standard output, the system calls above, and
  the names of the builtins it ran itself.
\<close>

record shell =
  bg_jobs :: "BgJob list"
  next_job_number :: int
  fg_pgid :: int
  fg_pids :: "int list"
  fg_count :: int
  fg_name :: string
  last_fg_name :: string
  g_recent_stop :: bool
  out :: "string list"
  sys :: "syscall list"
  ran :: "string list"

definition shell_init :: shell where
  "shell_init = \<lparr>bg_jobs = [], next_job_number = 1, fg_pgid = - 1, fg_pids = [],
     fg_count = 0, fg_name = [], last_fg_name = [], g_recent_stop = False,
     out = [], sys = [], ran = []\<rparr>"

definition bg_job_count :: "shell \<Rightarrow> int" where
  "bg_job_count s = int (length (bg_jobs s))"

subsection \<open>Printing numbers\<close>

definition digit_char :: "nat \<Rightarrow> char" where
  "digit_char n = ''0123456789'' ! n"

fun show_nat :: "nat \<Rightarrow> string" where
  "show_nat n = (if n < 10 then [digit_char n] else show_nat (n div 10) @ [digit_char (n mod 10)])"

declare show_nat.simps [simp del]

definition show_int :: "int \<Rightarrow> string" where
  "show_int i = (if i < 0 then CHR ''-'' # show_nat (nat (- i)) else show_nat (nat i))"

section \<open>jobs.c\<close>

subsection \<open>Foreground record\<close>

text \<open>
  \<^verbatim>\<open>jobs_set_foreground\<close>: the name is cut to 127 characters (the buffer has 128); a
  null name gives the empty string.  Of the array \<^verbatim>\<open>fg_pids\<close> only the first
  \<^verbatim>\<open>fg_count\<close> entries are ever read, and the list holds those.
\<close>

definition jobs_set_foreground :: "int \<Rightarrow> int list \<Rightarrow> int \<Rightarrow> string option \<Rightarrow> shell \<Rightarrow> shell" where
  "jobs_set_foreground pgid ps count name s =
     (let c = (if count > MAX_CMDS then MAX_CMDS else count) in
      s\<lparr>fg_pgid := pgid, fg_count := c, fg_pids := map ((!) ps) [0..<nat c],
        fg_name := (case name of Some n \<Rightarrow> take 127 n | None \<Rightarrow> [])\<rparr>)"

definition jobs_clear_foreground :: "shell \<Rightarrow> shell" where
  "jobs_clear_foreground s = s\<lparr>fg_pgid := - 1, fg_count := 0, fg_name := []\<rparr>"

subsection \<open>Registering jobs\<close>

text \<open>
  Both registration functions return the job number, or -1 with the state untouched.
  The new entry takes the value of the counter, and the counter is incremented as a
  32-bit \<^verbatim>\<open>int\<close>.  \<^verbatim>\<open>jobs_add_background\<close> does not compare \<^verbatim>\<open>count\<close> with the
  capacity \<^verbatim>\<open>MAX_CMDS\<close> of the stage arrays; its only caller, \<^verbatim>\<open>run_pipeline_async\<close>,
  passes the length of a parsed pipeline, which is at most \<^verbatim>\<open>MAX_CMDS\<close>, and the model
  covers those calls.
\<close>

definition jobs_move_foreground_to_background_stopped :: "shell \<Rightarrow> int \<times> shell" where
  "jobs_move_foreground_to_background_stopped s =
     (if fg_pgid s = - 1 \<or> fg_count s = 0 then (- 1, s)
      else if bg_job_count s \<ge> MAX_BG_JOBS then (- 1, s)
      else
        let nm = (if fg_name s \<noteq> [] then fg_name s else ''?'');
            n = nat (fg_count s);
            job = \<lparr>job_num = next_job_number s, npids = fg_count s,
                   pids = take n (fg_pids s), finished = replicate n False,
                   stopped = replicate n True, cmd_name = nm,
                   stage_names = replicate n nm, last_status = 0\<rparr>
        in (job_num job,
            jobs_clear_foreground
              (s\<lparr>bg_jobs := bg_jobs s @ [job], next_job_number := to_int32 (next_job_number s + 1)\<rparr>)))"

text \<open>
  \<^verbatim>\<open>jobs_add_background\<close>: \<open>names\<close> is the array of stage names, \<open>None\<close> for a null
  array and \<open>None\<close> entries for null strings.  The second component of the result is
  what is stored through \<^verbatim>\<open>last_pid_out\<close>.
\<close>

definition name_at :: "string option list option \<Rightarrow> nat \<Rightarrow> string option" where
  "name_at names i = (case names of None \<Rightarrow> None | Some ns \<Rightarrow> ns ! i)"

definition jobs_add_background ::
  "int list \<Rightarrow> int \<Rightarrow> string option list option \<Rightarrow> shell \<Rightarrow> int \<times> int option \<times> shell" where
  "jobs_add_background ps count names s =
     (if count \<le> 0 then (- 1, None, s)
      else if bg_job_count s \<ge> MAX_BG_JOBS then (- 1, None, s)
      else
        let n = nat count;
            cn = (case name_at names 0 of Some x \<Rightarrow> x | None \<Rightarrow> ''?'');
            job = \<lparr>job_num = next_job_number s, npids = count,
                   pids = map ((!) ps) [0..<n], finished = replicate n False,
                   stopped = replicate n False, cmd_name = cn,
                   stage_names = map (\<lambda>i. case name_at names i of Some x \<Rightarrow> x | None \<Rightarrow> cn) [0..<n],
                   last_status = 0\<rparr>
        in (job_num job, Some (ps ! (n - 1)),
            s\<lparr>bg_jobs := bg_jobs s @ [job],
              next_job_number := to_int32 (next_job_number s + 1)\<rparr>))"

subsection \<open>The background poller\<close>

text \<open>
  One call of \<^verbatim>\<open>jobs_poll\<close> asks the system once about every stage that is not marked
  finished.  The answers of that sweep are a function of the process id asked about.
  \<open>exit_class\<close> is \<^verbatim>\<open>(WIFEXITED(st) && WEXITSTATUS(st)==0) ? 0 : 1\<close>.
\<close>

definition exit_class :: "wait_result \<Rightarrow> int" where
  "exit_class r = (case r of W_Exited c \<Rightarrow> (if c = 0 then 0 else 1) | _ \<Rightarrow> 1)"

text \<open>
  The answers after which a stage is still there (they clear \<^verbatim>\<open>all_done\<close>), and the
  answers that report the end of the process.
\<close>

definition keeps_waiting :: "wait_result \<Rightarrow> bool" where
  "keeps_waiting r = (r = W_Nochange \<or> r = W_Stopped \<or> r = W_Continued)"

definition terminated :: "wait_result \<Rightarrow> bool" where
  "terminated r = (case r of W_Exited c \<Rightarrow> True | W_Signaled g \<Rightarrow> True | _ \<Rightarrow> False)"

text \<open>The body of the inner loop, for stage \<open>j\<close>; the pair is the job and \<^verbatim>\<open>all_done\<close>.\<close>

definition poll_stage :: "(int \<Rightarrow> wait_result) \<Rightarrow> nat \<Rightarrow> BgJob \<times> bool \<Rightarrow> BgJob \<times> bool" where
  "poll_stage w j = (\<lambda>(job, all_done).
     if finished job ! j then (job, all_done)
     else (case w (pids job ! j) of
        W_Nochange \<Rightarrow> (job, False)
      | W_Error \<Rightarrow> (job, all_done)
      | W_Stopped \<Rightarrow> (job\<lparr>stopped := (stopped job)[j := True]\<rparr>, False)
      | W_Continued \<Rightarrow> (job\<lparr>stopped := (stopped job)[j := False]\<rparr>, False)
      | r \<Rightarrow> (job\<lparr>finished := (finished job)[j := True],
                   stopped := (stopped job)[j := False],
                   last_status := (if int j = npids job - 1 then exit_class r
                                   else last_status job)\<rparr>, all_done)))"

definition poll_job :: "(int \<Rightarrow> wait_result) \<Rightarrow> BgJob \<Rightarrow> BgJob \<times> bool" where
  "poll_job w job = fold (poll_stage w) [0..<nat (npids job)] (job, True)"

definition exit_message :: "BgJob \<Rightarrow> string" where
  "exit_message job =
     cmd_name job @ '' with pid '' @ show_int (pids job ! nat (npids job - 1)) @
     (if last_status job = 0 then '' exited normally'' else '' exited abnormally'')"

text \<open>
  The outer loop walks the table; a job whose sweep ends with \<^verbatim>\<open>all_done\<close> set is
  reported and the entries behind it move up, every other job stays in place.  The
  result is the new table and the lines printed, in order.
\<close>

fun poll_jobs :: "(int \<Rightarrow> wait_result) \<Rightarrow> BgJob list \<Rightarrow> BgJob list \<times> string list" where
  "poll_jobs w [] = ([], [])"
| "poll_jobs w (job # rest) =
     (case poll_job w job of (job', all_done) \<Rightarrow>
        (case poll_jobs w rest of (rest', msgs) \<Rightarrow>
           if all_done then (rest', exit_message job' # msgs) else (job' # rest', msgs)))"

definition jobs_poll :: "(int \<Rightarrow> wait_result) \<Rightarrow> shell \<Rightarrow> shell" where
  "jobs_poll w s =
     (case poll_jobs w (bg_jobs s) of (jobs', msgs) \<Rightarrow> s\<lparr>bg_jobs := jobs', out := out s @ msgs\<rparr>)"

subsection \<open>Job selection\<close>

fun find_from :: "BgJob list \<Rightarrow> int \<Rightarrow> nat \<Rightarrow> int" where
  "find_from [] jobnum i = - 1"
| "find_from (job # rest) jobnum i =
     (if job_num job = jobnum then int i else find_from rest jobnum (Suc i))"

definition find_job_index :: "shell \<Rightarrow> int \<Rightarrow> int" where
  "find_job_index s jobnum = find_from (bg_jobs s) jobnum 0"

definition most_recent_job_index :: "shell \<Rightarrow> int" where
  "most_recent_job_index s = (if bg_job_count s \<noteq> 0 then bg_job_count s - 1 else - 1)"

text \<open>The index both builtins start from: a job number of 0 means no number was given.\<close>

definition select_job :: "shell \<Rightarrow> int \<Rightarrow> int" where
  "select_job s jobnum =
     (if jobnum \<noteq> 0 then find_job_index s jobnum else most_recent_job_index s)"

subsection \<open>bg\<close>

definition jobs_cmd_bg :: "int \<Rightarrow> shell \<Rightarrow> int \<times> shell" where
  "jobs_cmd_bg jobnum s =
     (let idx = select_job s jobnum in
      if idx < 0 then (1, s\<lparr>out := out s @ [''No such job'']\<rparr>)
      else
        let job = bg_jobs s ! nat idx;
            any_stopped = list_ex (\<lambda>i. \<not> finished job ! i \<and> stopped job ! i) [0..<nat (npids job)]
        in if \<not> any_stopped then (1, s\<lparr>out := out s @ [''Job already running'']\<rparr>)
           else
             let pgid = pids job ! 0;
                 job' = job\<lparr>stopped := replicate (nat (npids job)) False\<rparr>
             in (0, s\<lparr>bg_jobs := (bg_jobs s)[nat idx := job'],
                      sys := sys s @ (if pgid > 0 then [Kill (- pgid) SIGCONT] else []),
                      out := out s @ [''['' @ show_int (job_num job) @ ''] '' @ cmd_name job @ '' &'']\<rparr>))"

subsection \<open>fg\<close>

text \<open>
  The locals of the wait loop of \<^verbatim>\<open>jobs_cmd_fg\<close> (\<^verbatim>\<open>all_done\<close>, \<^verbatim>\<open>stopped\<close>,
  \<^verbatim>\<open>status_code\<close>), the job entry the loop works on, and the waits issued in the round.
\<close>

record fg_scan =
  lv_job :: BgJob
  lv_all_done :: bool
  lv_stopped :: bool
  lv_status_code :: int
  lv_calls :: "syscall list"

definition fg_flags :: "wait_flag set" where
  "fg_flags = {WUNTRACED, WCONTINUED, WNOHANG}"

definition fg_stage :: "(int \<Rightarrow> wait_result) \<Rightarrow> nat \<Rightarrow> fg_scan \<Rightarrow> fg_scan" where
  "fg_stage w i v =
     (let job = lv_job v in
      if finished job ! i then v
      else
        let v1 = v\<lparr>lv_calls := lv_calls v @ [Waitpid (pids job ! i) fg_flags]\<rparr> in
        (case w (pids job ! i) of
           W_Nochange \<Rightarrow> v1\<lparr>lv_all_done := False\<rparr>
         | W_Error \<Rightarrow> v1
         | W_Stopped \<Rightarrow> v1\<lparr>lv_job := job\<lparr>stopped := (stopped job)[i := True]\<rparr>,
                            lv_all_done := False, lv_stopped := True\<rparr>
         | W_Continued \<Rightarrow> v1\<lparr>lv_job := job\<lparr>stopped := (stopped job)[i := False]\<rparr>,
                              lv_all_done := False\<rparr>
         | r \<Rightarrow> v1\<lparr>lv_job := job\<lparr>finished := (finished job)[i := True],
                                  stopped := (stopped job)[i := False]\<rparr>,
                    lv_status_code := (if int i = npids job - 1 then exit_class r
                                       else lv_status_code v)\<rparr>))"

text \<open>
  One round of the loop \<^verbatim>\<open>for(;;)\<close>: \<^verbatim>\<open>all_done\<close> and \<^verbatim>\<open>stopped\<close> are set afresh,
  \<^verbatim>\<open>status_code\<close> is carried over from the rounds before, then every stage is visited.
\<close>

definition fg_round :: "(int \<Rightarrow> wait_result) \<Rightarrow> BgJob \<Rightarrow> int \<Rightarrow> fg_scan" where
  "fg_round w job sc =
     fold (fg_stage w) [0..<nat (npids job)]
       \<lparr>lv_job = job, lv_all_done = True, lv_stopped = False,
        lv_status_code = sc, lv_calls = []\<rparr>"

text \<open>
  The loop \<^verbatim>\<open>for(;;)\<close>: one element of \<open>rounds\<close> holds the answers of the system during
  one round.  The loop may run for ever: the first component of the result is the value
  returned, or \<open>None\<close> when the rounds supplied are used up and the job has neither
  stopped nor finished (the call has not returned; the state is the one reached so far).
\<close>

fun fg_wait :: "(int \<Rightarrow> wait_result) list \<Rightarrow> nat \<Rightarrow> int \<Rightarrow> shell \<Rightarrow> int option \<times> shell" where
  "fg_wait [] idx sc s = (None, s)"
| "fg_wait (w # ws) idx sc s =
     (let job = bg_jobs s ! idx;
          v = fg_round w job sc;
          job' = lv_job v;
          s1 = s\<lparr>bg_jobs := (bg_jobs s)[idx := job'], sys := sys s @ lv_calls v\<rparr>
      in if lv_stopped v then
           (Some 148, s1\<lparr>sys := sys s1 @ [Tcsetpgrp Own_group],
                         out := out s1 @ [''['' @ show_int (job_num job') @ ''] Stopped '' @ cmd_name job']\<rparr>)
         else if lv_all_done v then
           (Some (lv_status_code v),
            s1\<lparr>bg_jobs := take idx (bg_jobs s1) @ drop (Suc idx) (bg_jobs s1),
               sys := sys s1 @ [Tcsetpgrp Own_group]\<rparr>)
         else fg_wait ws idx (lv_status_code v) (s1\<lparr>sys := sys s1 @ [Nanosleep 30000000]\<rparr>))"

definition jobs_cmd_fg :: "(int \<Rightarrow> wait_result) list \<Rightarrow> int \<Rightarrow> shell \<Rightarrow> int option \<times> shell" where
  "jobs_cmd_fg rounds jobnum s =
     (let idx = select_job s jobnum in
      if idx < 0 then (Some 1, s\<lparr>out := out s @ [''No such job'']\<rparr>)
      else
        let job = bg_jobs s ! nat idx;
            pgid = pids job ! 0
        in if pgid \<le> 0 then (Some 1, s\<lparr>out := out s @ [''No such job'']\<rparr>)
           else
             let need_cont = list_ex (\<lambda>i. stopped job ! i) [0..<nat (npids job)]
             in fg_wait rounds (nat idx) 0
                  (s\<lparr>out := out s @ [cmd_name job],
                     sys := sys s @ [Tcsetpgrp (Group pgid)] @
                            (if need_cont then [Kill (- pgid) SIGCONT] else [])\<rparr>))"

section \<open>The executor (hop.c)\<close>

subsection \<open>Parsed commands\<close>

text \<open>
  \<^verbatim>\<open>SimpleCmd\<close> holds a null-terminated \<^verbatim>\<open>argv\<close> and \<^verbatim>\<open>redir_count\<close> redirections,
  \<^verbatim>\<open>Pipeline\<close> holds \<^verbatim>\<open>count\<close> commands: lists, with the counts as their lengths.  The
  parser admits at most 16 commands in a pipeline.
\<close>

datatype RedirType = R_IN | R_OUT_TRUNC | R_OUT_APPEND

record Redir =
  r_type :: RedirType
  r_path :: string

record SimpleCmd =
  argv :: "string list"
  redirs :: "Redir list"

type_synonym Pipeline = "SimpleCmd list"

subsection \<open>Files and descriptors as the children see them\<close>

text \<open>
  The file system is outside the repository; the model keeps what the redirection code
  depends on.  A file system maps a path to the content of the file there, and
  \<open>denied\<close> holds the paths on which \<^verbatim>\<open>open\<close> fails whatever the flags.  Opening for
  reading needs an existing file.  Opening with \<^verbatim>\<open>O_WRONLY | O_CREAT\<close> creates a missing
  file empty; with \<^verbatim>\<open>O_TRUNC\<close> it empties an existing one, with \<^verbatim>\<open>O_APPEND\<close> it
  leaves the content alone.
\<close>

record fsys =
  files :: "string \<Rightarrow> string option"
  denied :: "string \<Rightarrow> bool"

definition open_read :: "fsys \<Rightarrow> string \<Rightarrow> bool" where
  "open_read fs p = (files fs p \<noteq> None \<and> \<not> denied fs p)"

definition open_write :: "fsys \<Rightarrow> bool \<Rightarrow> string \<Rightarrow> fsys option" where
  "open_write fs app p =
     (if denied fs p then None
      else Some (fs\<lparr>files := (files fs)
                  (p := Some (if app then (case files fs p of None \<Rightarrow> [] | Some c \<Rightarrow> c)
                              else []))\<rparr>))"

text \<open>
  What a standard descriptor of a child is bound to.  \<open>Pipe_read k\<close> and \<open>Pipe_write k\<close>
  are the two ends of the pipe created for stage \<open>k\<close>; \<open>File_write p a\<close> is a file
  opened for writing, \<open>a\<close> telling whether \<^verbatim>\<open>O_APPEND\<close> is set.
\<close>

datatype fd_target =
  Terminal | Pipe_read nat | Pipe_write nat | Dev_null | File_read string | File_write string bool


subsection \<open>Set-up of a child\<close>

text \<open>
  The redirection loop, the same in \<^verbatim>\<open>run_pipeline\<close> and \<^verbatim>\<open>run_pipeline_async\<close>.  The
  triple is standard input, standard output and the file system.  A failing \<^verbatim>\<open>open\<close>
  ends the child (\<^verbatim>\<open>_exit(1)\<close>) with a message on standard error; the file system is
  then the one the earlier redirections left.
\<close>

fun apply_redirs ::
  "Redir list \<Rightarrow> fd_target \<times> fd_target \<times> fsys \<Rightarrow> string \<times> fsys + fd_target \<times> fd_target \<times> fsys" where
  "apply_redirs [] st = Inr st"
| "apply_redirs (r # rs) (sin, sout, fs) =
     (if r_type r = R_IN then
        (if open_read fs (r_path r) then apply_redirs rs (File_read (r_path r), sout, fs)
         else Inl (''No such file or directory'', fs))
      else
        (case open_write fs (r_type r = R_OUT_APPEND) (r_path r) of
           None \<Rightarrow> Inl (''Unable to create file for writing'', fs)
         | Some fs' \<Rightarrow>
             apply_redirs rs (sin, File_write (r_path r) (r_type r = R_OUT_APPEND), fs')))"

datatype launch_mode = Foreground | Background

text \<open>
  The pipe wiring done first: \<open>prev_read\<close> and \<open>pipe_write\<close> are \<^verbatim>\<open>prev_read\<close> and
  \<^verbatim>\<open>pipefd[1]\<close>, \<open>None\<close> standing for -1.
\<close>

definition wire :: "nat option \<Rightarrow> nat option \<Rightarrow> fd_target \<times> fd_target" where
  "wire prev_read pipe_write =
     ((case prev_read of None \<Rightarrow> Terminal | Some k \<Rightarrow> Pipe_read k),
      (case pipe_write of None \<Rightarrow> Terminal | Some k \<Rightarrow> Pipe_write k))"

text \<open>
  The child branch up to the call of the command.  \<open>Foreground\<close> is the child of
  \<^verbatim>\<open>run_pipeline\<close>, \<open>Background\<close> the child of \<^verbatim>\<open>run_pipeline_async\<close>, which binds
  standard input to \<^verbatim>\<open>/dev/null\<close> under the test \<^verbatim>\<open>c->redir_count == 0\<close> before the
  redirection loop.
\<close>

definition child_setup ::
  "launch_mode \<Rightarrow> nat option \<Rightarrow> nat option \<Rightarrow> SimpleCmd \<Rightarrow> fsys \<Rightarrow>
     string \<times> fsys + fd_target \<times> fd_target \<times> fsys" where
  "child_setup m prev_read pipe_write c fs =
     (case wire prev_read pipe_write of (sin, sout) \<Rightarrow>
        apply_redirs (redirs c)
          (if m = Background \<and> length (redirs c) = 0 \<and> \<not> denied fs ''/dev/null'' then Dev_null else sin,
           sout, fs))"


subsection \<open>Builtins\<close>

text \<open>
  The C library's \<^verbatim>\<open>atoi\<close>, which is \<^verbatim>\<open>(int) strtol(str, NULL, 10)\<close>.  \<open>number_read\<close> is
  the number the string writes: leading white space, an optional sign, then decimal
  digits up to the first other character; no digits give 0.  \<^verbatim>\<open>strtol\<close> returns it as
  a \<^verbatim>\<open>long\<close> of 64 bits, \<^verbatim>\<open>LONG_MAX\<close> or \<^verbatim>\<open>LONG_MIN\<close> standing for a number beyond
  that range, and the conversion to \<^verbatim>\<open>int\<close> keeps the low 32 bits: \<^verbatim>\<open>4294967296\<close>
  gives 0 and \<^verbatim>\<open>4294967297\<close> gives 1.
\<close>

definition is_space :: "char \<Rightarrow> bool" where
  "is_space c = (c \<in> set [CHR '' '', CHR 0x09, CHR 0x0A, CHR 0x0B, CHR 0x0C, CHR 0x0D])"

definition digit_of :: "char \<Rightarrow> int option" where
  "digit_of c = map_of (zip ''0123456789'' [0, 1, 2, 3, 4, 5, 6, 7, 8, 9]) c"

fun digits_value :: "string \<Rightarrow> int \<Rightarrow> int" where
  "digits_value [] acc = acc"
| "digits_value (c # cs) acc =
     (case digit_of c of None \<Rightarrow> acc | Some d \<Rightarrow> digits_value cs (10 * acc + d))"

definition number_read :: "string \<Rightarrow> int" where
  "number_read str =
     (case dropWhile is_space str of
        [] \<Rightarrow> 0
      | c # cs \<Rightarrow>
          if c = CHR ''-'' then - digits_value cs 0
          else if c = CHR ''+'' then digits_value cs 0
          else digits_value (c # cs) 0)"

definition to_long :: "int \<Rightarrow> int" where
  "to_long x =
     (if x > 9223372036854775807 then 9223372036854775807
      else if x < - 9223372036854775808 then - 9223372036854775808
      else x)"

definition atoi :: "string \<Rightarrow> int" where
  "atoi str = to_int32 (to_long (number_read str))"

text \<open>
  What the executor is given by its surroundings: the status returned by the builtins
  that live outside the job table (\<^verbatim>\<open>hop\<close>, \<^verbatim>\<open>cd\<close>, \<^verbatim>\<open>reveal\<close>, \<^verbatim>\<open>ping\<close>, \<^verbatim>\<open>log\<close>,
  \<^verbatim>\<open>activities\<close>; none of them returns -1), the rounds of answers for the wait loop of
  \<^verbatim>\<open>fg\<close>, whether \<^verbatim>\<open>pipe\<close> fails for a stage, what \<^verbatim>\<open>fork\<close> returns to the parent for a
  stage (a negative value when it fails), and the answer to a blocking \<^verbatim>\<open>waitpid\<close> on a
  process, \<open>None\<close> when the process never changes state so that the call never returns.
  What those builtins do to the directory and print is not part of the model; that
  they ran, and in which process, is.
\<close>

record os =
  builtin_status :: "string list \<Rightarrow> nat"
  fg_rounds :: "(int \<Rightarrow> wait_result) list"
  pipe_fails :: "nat \<Rightarrow> bool"
  fork_ret :: "nat \<Rightarrow> int"
  sync_wait :: "int \<Rightarrow> wait_result option"

text \<open>
  \<^verbatim>\<open>run_builtin\<close> returns -1 when the command is no builtin.  The name of every
  builtin that is run is recorded in \<open>ran\<close> of the process image that runs it.
\<close>

definition run_builtin :: "os \<Rightarrow> SimpleCmd \<Rightarrow> shell \<Rightarrow> int option \<times> shell" where
  "run_builtin e c s =
     (case argv c of
        [] \<Rightarrow> (Some (- 1), s)
      | a0 # args \<Rightarrow>
          if a0 \<in> set [''hop'', ''cd'', ''reveal'', ''ping'', ''log'', ''activities''] then
            (Some (int (builtin_status e (argv c))), s\<lparr>ran := ran s @ [a0]\<rparr>)
          else if a0 = ''fg'' then
            jobs_cmd_fg (fg_rounds e) (case args of [] \<Rightarrow> 0 | a1 # _ \<Rightarrow> atoi a1)
              (s\<lparr>ran := ran s @ [a0]\<rparr>)
          else if a0 = ''bg'' then
            (case jobs_cmd_bg (case args of [] \<Rightarrow> 0 | a1 # _ \<Rightarrow> atoi a1)
                    (s\<lparr>ran := ran s @ [a0]\<rparr>) of
               (st, s') \<Rightarrow> (Some st, s'))
          else (Some (- 1), s))"

subsection \<open>Launching a pipeline\<close>

text \<open>
  A forked child starts from a copy of the image of the shell at the time of the
  \<^verbatim>\<open>fork\<close>, with the pipe ends the parent held then.  The parent keeps a description of
  every child it forked.
\<close>

record child_desc =
  cd_mode :: launch_mode
  cd_stage :: nat
  cd_prev_read :: "nat option"
  cd_pipe_write :: "nat option"
  cd_image :: shell

text \<open>
  The locals of the fork loop: \<^verbatim>\<open>pids\<close>, \<^verbatim>\<open>pgid\<close>, \<^verbatim>\<open>prev_read\<close>, \<^verbatim>\<open>status_code\<close>
  (\<^verbatim>\<open>run_pipeline\<close> only), the children forked, and whether the loop was left by
  \<^verbatim>\<open>break\<close>.
\<close>

record launch =
  ln_pids :: "int list"
  ln_pgid :: int
  ln_prev_read :: "nat option"
  ln_status :: int
  ln_children :: "child_desc list"
  ln_broken :: bool

text \<open>
  The parent side of the fork loop over the stages \<open>i\<close> still to launch, for a
  pipeline of \<open>n\<close> stages; \<open>Suc i < n\<close> is the test \<^verbatim>\<open>i < n-1\<close>.
\<close>

fun launch_loop :: "os \<Rightarrow> launch_mode \<Rightarrow> shell \<Rightarrow> nat \<Rightarrow> nat list \<Rightarrow> launch \<Rightarrow> launch" where
  "launch_loop e m s n [] st = st"
| "launch_loop e m s n (i # rest) st =
     (let pw = (if Suc i < n then Some i else None) in
      if Suc i < n \<and> pipe_fails e i then st\<lparr>ln_status := 1, ln_broken := True\<rparr>
      else
        let pid = fork_ret e i in
        if pid < 0 then st\<lparr>ln_status := 1, ln_broken := True\<rparr>
        else launch_loop e m s n rest
               (st\<lparr>ln_pids := (ln_pids st)[i := pid],
                   ln_pgid := (if ln_pgid st = - 1 then pid else ln_pgid st),
                   ln_prev_read := pw,
                   ln_children := ln_children st @
                     [\<lparr>cd_mode = m, cd_stage = i, cd_prev_read = ln_prev_read st,
                       cd_pipe_write = pw, cd_image = s\<rparr>]\<rparr>))"

text \<open>
  What a forked child does: set-up, then the builtin if the command is one
  (\<^verbatim>\<open>_exit\<close> with its status), else \<^verbatim>\<open>execvp\<close>.
\<close>

datatype child_fate = Exits int | Execs "string list" | Never_returns

datatype child_run =
  Setup_failed string fsys
| Ran child_fate fd_target fd_target fsys shell

definition child_main :: "os \<Rightarrow> Pipeline \<Rightarrow> child_desc \<Rightarrow> fsys \<Rightarrow> child_run" where
  "child_main e pl d fs =
     (let c = pl ! cd_stage d in
      case child_setup (cd_mode d) (cd_prev_read d) (cd_pipe_write d) c fs of
        Inl (msg, fs') \<Rightarrow> Setup_failed msg fs'
      | Inr (sin, sout, fs') \<Rightarrow>
          (case run_builtin e c (cd_image d) of
             (None, img) \<Rightarrow> Ran Never_returns sin sout fs' img
           | (Some b, img) \<Rightarrow>
               if b \<noteq> - 1 then Ran (Exits b) sin sout fs' img
               else Ran (Execs (argv c)) sin sout fs' img))"

subsection \<open>The synchronous pipeline\<close>

text \<open>
  The locals of the wait loop of \<^verbatim>\<open>run_pipeline\<close>: \<^verbatim>\<open>stopped\<close>, \<^verbatim>\<open>status_code\<close>, the
  waits issued, and whether a wait never returned.
\<close>

record fw =
  fw_stopped :: bool
  fw_status :: int
  fw_calls :: "syscall list"
  fw_blocked :: bool

text \<open>
  \<^verbatim>\<open>waitpid(pids[i], &st, WUNTRACED) > 0\<close> fails on the answers \<open>W_Nochange\<close> and
  \<open>W_Error\<close>; \<open>Suc i = n\<close> is the test \<^verbatim>\<open>i == pl->count - 1\<close>; \<open>sync_status\<close> is
  \<^verbatim>\<open>WIFEXITED(st) ? WEXITSTATUS(st) : 1\<close>.
\<close>

definition sync_status :: "wait_result \<Rightarrow> int" where
  "sync_status r = (case r of W_Exited c \<Rightarrow> c | _ \<Rightarrow> 1)"

fun wait_loop :: "os \<Rightarrow> int list \<Rightarrow> nat \<Rightarrow> nat list \<Rightarrow> fw \<Rightarrow> fw" where
  "wait_loop e ps n [] v = v"
| "wait_loop e ps n (i # rest) v =
     (if ps ! i > 0 then
        (let v1 = v\<lparr>fw_calls := fw_calls v @ [Waitpid (ps ! i) {WUNTRACED}]\<rparr> in
         case sync_wait e (ps ! i) of
           None \<Rightarrow> v1\<lparr>fw_blocked := True\<rparr>
         | Some r \<Rightarrow>
             if r = W_Nochange \<or> r = W_Error then wait_loop e ps n rest v1
             else if r = W_Stopped then wait_loop e ps n rest (v1\<lparr>fw_stopped := True\<rparr>)
             else if Suc i = n then
               wait_loop e ps n rest (v1\<lparr>fw_status := sync_status r\<rparr>)
             else wait_loop e ps n rest v1)
      else wait_loop e ps n rest v)"

definition first_name :: "Pipeline \<Rightarrow> string" where
  "first_name pl = (case argv (pl ! 0) of [] \<Rightarrow> ''?'' | a0 # _ \<Rightarrow> a0)"

text \<open>
  \<^verbatim>\<open>run_pipeline\<close>.  The result is the value returned (\<open>None\<close> when a wait never
  returns), the state of the shell, and the children forked.
\<close>

definition run_pipeline :: "os \<Rightarrow> Pipeline \<Rightarrow> shell \<Rightarrow> int option \<times> shell \<times> child_desc list" where
  "run_pipeline e pl s =
     (let n = length pl in
      if n = 0 then (Some 1, s, [])
      else
        let l = launch_loop e Foreground s n [0..<n]
                  \<lparr>ln_pids = replicate n (- 1), ln_pgid = - 1, ln_prev_read = None,
                   ln_status = 0, ln_children = [], ln_broken = False\<rparr>;
            s1 = jobs_set_foreground (ln_pgid l) (ln_pids l) (int n) (Some (first_name pl)) s;
            s2 = s1\<lparr>last_fg_name := take 127 (first_name pl),
                    sys := sys s1 @ [Tcsetpgrp (Group (ln_pgid l))]\<rparr>;
            v = wait_loop e (ln_pids l) n [0..<n]
                  \<lparr>fw_stopped = False, fw_status = ln_status l, fw_calls = [], fw_blocked = False\<rparr>;
            s3 = s2\<lparr>sys := sys s2 @ fw_calls v\<rparr>
        in if fw_blocked v then (None, s3, ln_children l)
           else if fw_stopped v then
             (case jobs_move_foreground_to_background_stopped (s3\<lparr>g_recent_stop := True\<rparr>) of
                (jobnum, s4) \<Rightarrow>
                  let s5 = (if jobnum \<noteq> - 1
                            then s4\<lparr>out := out s4 @
                                   [''['' @ show_int jobnum @ ''] Stopped '' @
                                    (if last_fg_name s4 \<noteq> [] then last_fg_name s4 else ''?'')]\<rparr>
                            else s4)
                  in (Some 148,
                      jobs_clear_foreground (s5\<lparr>sys := sys s5 @ [Tcsetpgrp Own_group]\<rparr>),
                      ln_children l))
           else (Some (fw_status v),
                 jobs_clear_foreground (s3\<lparr>sys := sys s3 @ [Tcsetpgrp Own_group]\<rparr>),
                 ln_children l))"

subsection \<open>The asynchronous pipeline\<close>

text \<open>
  \<^verbatim>\<open>run_pipeline_async\<close> leaves \<^verbatim>\<open>pids\<close> and \<^verbatim>\<open>names\<close> uninitialised and hands all
  \<^verbatim>\<open>pl->count\<close> entries to \<^verbatim>\<open>jobs_add_background\<close>; when the fork loop was left by
  \<^verbatim>\<open>break\<close> some of them were never written, and the C program has no defined
  behaviour.
\<close>

datatype 'a defined = Defined 'a | Undefined_read

fun join_args :: "string list \<Rightarrow> string" where
  "join_args [] = []"
| "join_args [a] = a"
| "join_args (a # b # rest) = a @ '' '' @ join_args (b # rest)"

definition run_pipeline_async ::
  "os \<Rightarrow> Pipeline \<Rightarrow> string \<Rightarrow> shell \<Rightarrow> (int \<times> shell \<times> child_desc list) defined" where
  "run_pipeline_async e pl segment_text s =
     (let n = length pl in
      if n = 0 then Defined (1, s, [])
      else
        let l = launch_loop e Background s n [0..<n]
                  \<lparr>ln_pids = replicate n 0, ln_pgid = - 1, ln_prev_read = None,
                   ln_status = 0, ln_children = [], ln_broken = False\<rparr>
        in if ln_broken l then Undefined_read
           else
             let names = map (\<lambda>c. case argv c of [] \<Rightarrow> segment_text | a0 # _ \<Rightarrow> a0) pl;
                 names' = (if n = 1 \<and> argv (pl ! 0) \<noteq> []
                           then names[0 := join_args (argv (pl ! 0)) @ '' &'']
                           else names)
             in (case jobs_add_background (ln_pids l) (int n) (Some (map Some names')) s of
                   (jobnum, lastpid, s1) \<Rightarrow>
                     Defined (0,
                       (if jobnum \<noteq> - 1
                        then s1\<lparr>out := out s1 @
                               [''['' @ show_int jobnum @ ''] '' @
                                show_int (case lastpid of Some q \<Rightarrow> q | None \<Rightarrow> 0)]\<rparr>
                        else s1),
                       ln_children l)))"

subsection \<open>Dispatch of one command group\<close>

text \<open>
  The branch of \<^verbatim>\<open>execute_first_cmd_group\<close> taken for a command group that parsed:
  \<open>is_background\<close> is \<^verbatim>\<open>delim == '&'\<close>, \<open>prev_status\<close> the value of \<^verbatim>\<open>last_status\<close> so far.  The result
  is the new \<^verbatim>\<open>last_status\<close> (\<open>None\<close> when the group never returns), the state of the
  shell and the children forked.
\<close>

definition execute_group ::
  "os \<Rightarrow> Pipeline \<Rightarrow> string \<Rightarrow> bool \<Rightarrow> int \<Rightarrow> shell \<Rightarrow>
     (int option \<times> shell \<times> child_desc list) defined" where
  "execute_group e pl segment is_background prev_status s =
     (if length pl = 1 \<and> \<not> is_background then
        (let sc = pl ! 0 in
         case run_builtin e sc s of
           (None, s1) \<Rightarrow> Defined (None, s1, [])
         | (Some b, s1) \<Rightarrow>
             if b \<noteq> - 1 \<and> length (redirs sc) = 0 then Defined (Some b, s1, [])
             else Defined (run_pipeline e pl s1))
      else if is_background then
        (case run_pipeline_async e pl segment s of
           Undefined_read \<Rightarrow> Undefined_read
         | Defined (st, s1, cs) \<Rightarrow> Defined (Some prev_status, s1, cs))
      else Defined (run_pipeline e pl s))"

section \<open>Reading the list of system calls\<close>

text \<open>
  A call that cannot block the shell: every call but a \<^verbatim>\<open>waitpid\<close> without
  \<^verbatim>\<open>WNOHANG\<close>.
\<close>

fun nonblocking :: "syscall \<Rightarrow> bool" where
  "nonblocking (Waitpid p fl) = (WNOHANG \<in> fl)"
| "nonblocking (Kill p g) = True"
| "nonblocking (Tcsetpgrp g) = True"
| "nonblocking (Nanosleep t) = True"

text \<open>
  Polling by rounds, for a job whose stages have the process ids \<open>ps\<close>: every wait is
  non-blocking; between two sleeps the waits go through the stages in stage order, at
  most one wait for a stage, each on the process id of its stage; and every sleep lasts
  exactly 30 ms (30000000 ns).  \<open>k\<close> is the first stage that may still be waited for
  before the next sleep.
\<close>

fun polls :: "int list \<Rightarrow> nat \<Rightarrow> syscall list \<Rightarrow> bool" where
  "polls ps k [] = True"
| "polls ps k (Waitpid p fl # cs) =
     (WNOHANG \<in> fl \<and> list_ex (\<lambda>j. ps ! j = p \<and> polls ps (Suc j) cs) [k..<length ps])"
| "polls ps k (Nanosleep t # cs) = (t = 30000000 \<and> polls ps 0 cs)"
| "polls ps k (Kill p g # cs) = polls ps k cs"
| "polls ps k (Tcsetpgrp g # cs) = polls ps k cs"

text \<open>
  Waiting the blocking way: every wait has exactly the flag \<^verbatim>\<open>WUNTRACED\<close>, and there
  is no sleep.
\<close>

fun blocking_style :: "syscall \<Rightarrow> bool" where
  "blocking_style (Waitpid p fl) = (fl = {WUNTRACED})"
| "blocking_style (Nanosleep t) = False"
| "blocking_style (Kill p g) = True"
| "blocking_style (Tcsetpgrp g) = True"

section \<open>Sequences of calls on the job table\<close>

text \<open>
  The calls of \<^verbatim>\<open>jobs.c\<close> that the rest of the shell makes, with their arguments and
  with the answers of the system where the call asks for some.
\<close>

datatype job_call =
    Add_background "int list" int "string option list option"
  | Set_foreground int "int list" int "string option"
  | Clear_foreground
  | Move_foreground_to_background
  | Poll "int \<Rightarrow> wait_result"
  | Cmd_fg "(int \<Rightarrow> wait_result) list" int
  | Cmd_bg int

text \<open>
  One call: the job numbers it handed out (none, or the one number returned by a
  registration that succeeded), whether the call returned, and the state after it.
\<close>

fun do_call :: "job_call \<Rightarrow> shell \<Rightarrow> int list \<times> bool \<times> shell" where
  "do_call (Add_background ps count names) s =
     (case jobs_add_background ps count names s of
        (n, lp, s') \<Rightarrow> (if n \<noteq> - 1 then [n] else [], True, s'))"
| "do_call (Set_foreground pgid ps count name) s =
     ([], True, jobs_set_foreground pgid ps count name s)"
| "do_call Clear_foreground s = ([], True, jobs_clear_foreground s)"
| "do_call Move_foreground_to_background s =
     (case jobs_move_foreground_to_background_stopped s of
        (n, s') \<Rightarrow> (if n \<noteq> - 1 then [n] else [], True, s'))"
| "do_call (Poll w) s = ([], True, jobs_poll w s)"
| "do_call (Cmd_fg rounds jobnum) s =
     (case jobs_cmd_fg rounds jobnum s of (st, s') \<Rightarrow> ([], st \<noteq> None, s'))"
| "do_call (Cmd_bg jobnum) s =
     (case jobs_cmd_bg jobnum s of (st, s') \<Rightarrow> ([], True, s'))"

text \<open>
  A sequence of calls, made one after the other as long as they return: all the job
  numbers handed out, in order, and the state reached.
\<close>

fun do_calls :: "job_call list \<Rightarrow> shell \<Rightarrow> int list \<times> shell" where
  "do_calls [] s = ([], s)"
| "do_calls (c # cs) s =
     (case do_call c s of
        (ns, returned, s') \<Rightarrow>
          if returned then (case do_calls cs s' of (ms, s'') \<Rightarrow> (ns @ ms, s''))
          else (ns, s'))"

definition nums :: "shell \<Rightarrow> int list" where
  "nums s = map job_num (bg_jobs s)"

text \<open>
  The invariant of the table as long as the counter has not passed \<^verbatim>\<open>INT_MAX\<close>: the
  counter is positive, and the job numbers of the entries increase strictly from front
  to back and lie below the counter.
\<close>

definition table_ok :: "shell \<Rightarrow> bool" where
  "table_ok s =
     (1 \<le> next_job_number s \<and> next_job_number s \<le> 2147483647
      \<and> sorted_wrt (<) (map job_num (bg_jobs s))
      \<and> list_all (\<lambda>j. job_num j < next_job_number s) (bg_jobs s))"

section \<open>Concrete states used to exercise the theorems\<close>

definition job_of :: "int \<Rightarrow> int list \<Rightarrow> string \<Rightarrow> BgJob" where
  "job_of k ps nm = \<lparr>job_num = k, npids = int (length ps), pids = ps,
     finished = replicate (length ps) False, stopped = replicate (length ps) False,
     cmd_name = nm, stage_names = replicate (length ps) nm, last_status = 0\<rparr>"

definition full_table :: shell where
  "full_table = shell_init\<lparr>bg_jobs := map (\<lambda>k. job_of (int k) [1000 + int k] ''sleep'') [1..<65],
     next_job_number := 65\<rparr>"

text \<open>
  A table holding jobs 1 and 3, both running, and a table holding job 1 running and
  job 3 stopped.
\<close>

definition two_jobs :: shell where
  "two_jobs = shell_init\<lparr>bg_jobs := [job_of 1 [11] ''sleep 100 &'', job_of 3 [13] ''cat &''],
     next_job_number := 4\<rparr>"

definition cat_stopped :: shell where
  "cat_stopped = shell_init\<lparr>bg_jobs := [job_of 1 [11] ''sleep 100 &'',
                                        (job_of 3 [13] ''cat'')\<lparr>stopped := [True]\<rparr>],
     next_job_number := 4\<rparr>"

definition hop_up_redirected :: SimpleCmd where
  "hop_up_redirected = \<lparr>argv = [''hop'', ''..''],
     redirs = [\<lparr>r_type = R_OUT_TRUNC, r_path = ''out.txt''\<rparr>]\<rparr>"



definition empty_fs :: fsys where
  "empty_fs = \<lparr>files = (\<lambda>p. None), denied = (\<lambda>p. False)\<rparr>"

text \<open>
  Surroundings in which nothing fails: builtins return 0, stage \<open>i\<close> gets process id
  \<open>100 + i\<close>, and every process waited for has exited with status 0.
\<close>

definition calm_os :: os where
  "calm_os = \<lparr>builtin_status = (\<lambda>a. 0), fg_rounds = [], pipe_fails = (\<lambda>i. False),
     fork_ret = (\<lambda>i. 100 + int i), sync_wait = (\<lambda>p. Some (W_Exited 0))\<rparr>"

text \<open>
  The pipeline \<^verbatim>\<open>sleep 5 | false\<close>, surroundings in which its first stage is found
  stopped and its second stage has exited with status 1, and the answers of a later
  sweep of the poller: the first stage has exited with status 0, the second cannot be
  waited for any more.
\<close>

definition sleep_false :: Pipeline where
  "sleep_false = [\<lparr>argv = [''sleep'', ''5''], redirs = []\<rparr>, \<lparr>argv = [''false''], redirs = []\<rparr>]"

definition stop_os :: os where
  "stop_os = calm_os\<lparr>sync_wait := (\<lambda>p. if p = 100 then Some W_Stopped else Some (W_Exited 1))\<rparr>"

definition reaped :: "int \<Rightarrow> wait_result" where
  "reaped p = (if p = 100 then W_Exited 0 else W_Error)"

text \<open>
  A job of two stages, and a sweep in which process 10 has exited with status 3 and
  process 11 with status 0.
\<close>

definition make_tee :: BgJob where
  "make_tee = job_of 1 [10, 11] ''make | tee''"

definition first_fails :: "int \<Rightarrow> wait_result" where
  "first_fails p = (if p = 10 then W_Exited 3 else if p = 11 then W_Exited 0 else W_Nochange)"

text \<open>
  Three registrations, a sweep of the poller in which only the process of the second
  job has exited, and a fourth registration.
\<close>

definition second_exits :: "int \<Rightarrow> wait_result" where
  "second_exits p = (if p = 12 then W_Exited 0 else W_Nochange)"

definition register_remove_register :: "job_call list" where
  "register_remove_register =
     [Add_background [11] 1 (Some [Some ''sleep 30 &'']),
      Add_background [12] 1 (Some [Some ''true &'']),
      Add_background [13] 1 (Some [Some ''cat &'']),
      Poll second_exits,
      Add_background [14] 1 (Some [Some ''vim &''])]"





text \<open>
  Two rounds of answers for \<^verbatim>\<open>fg\<close>: nothing has changed in the first, and in the second
  every process asked about has exited with status 0.
\<close>

definition later_exit :: "(int \<Rightarrow> wait_result) list" where
  "later_exit = [\<lambda>p. W_Nochange, \<lambda>p. W_Exited 0]"

definition later_os :: os where
  "later_os = calm_os\<lparr>fg_rounds := later_exit\<rparr>"

text \<open>
  \<open>n\<close> times over: one background job is registered and, in the next sweep of the
  poller, found to have exited, so that the table is empty again.
\<close>

definition churn :: "nat \<Rightarrow> job_call list" where
  "churn n = concat (replicate n [Add_background [4711] 1 None, Poll (\<lambda>p. W_Exited 0)])"

definition sleep_5 :: Pipeline where
  "sleep_5 = [\<lparr>argv = [''sleep'', ''5''], redirs = []\<rparr>]"

section \<open>Properties\<close>

text \<open>
  C9.  A registration that is refused changes nothing.  \<open>jobs_add_background\<close> called
  with a count that is not positive, or on a table that already holds \<open>MAX_BG_JOBS\<close>
  (64) jobs, returns -1, stores no last pid, and returns the state it was given: the
  table, its length and the job counter are those of before.
  \<open>jobs_move_foreground_to_background_stopped\<close> returns -1 and the unchanged state when
  no foreground job is recorded (\<open>fg_pgid\<close> is -1 or \<open>fg_count\<close> is 0) or the table
  is full.
\<close>

theorem registration_refused_is_atomic:
  "(count \<le> 0 \<or> bg_job_count s \<ge> 64 \<longrightarrow> jobs_add_background ps count names s = (- 1, None, s))
   \<and> (fg_pgid s = - 1 \<or> fg_count s = 0 \<or> bg_job_count s \<ge> 64 \<longrightarrow>
        jobs_move_foreground_to_background_stopped s = (- 1, s))"
  by (simp add: jobs_add_background_def jobs_move_foreground_to_background_stopped_def
      MAX_BG_JOBS_def)

theorem registration_refused_is_atomic_witness:
  "bg_job_count full_table \<ge> 64
   \<and> jobs_add_background [4711] 1 None full_table = (- 1, None, full_table)
   \<and> jobs_add_background [4711] 0 None shell_init = (- 1, None, shell_init)
   \<and> fg_pgid shell_init = - 1
   \<and> jobs_move_foreground_to_background_stopped shell_init = (- 1, shell_init)
   \<and> jobs_move_foreground_to_background_stopped
         (jobs_set_foreground 4711 [4711] 1 (Some ''vim'') full_table)
       = (- 1, jobs_set_foreground 4711 [4711] 1 (Some ''vim'') full_table)"
proof -
  have full: "bg_job_count full_table \<ge> 64"
    by (simp add: bg_job_count_def full_table_def)
  have full': "bg_job_count (jobs_set_foreground 4711 [4711] 1 (Some ''vim'') full_table) \<ge> 64"
    using full by (simp add: bg_job_count_def jobs_set_foreground_def Let_def)
  have none: "fg_pgid shell_init = - 1"
    by (simp add: shell_init_def)
  show ?thesis
    using full none
      registration_refused_is_atomic [of 1 full_table "[4711]" None]
      registration_refused_is_atomic [of 0 shell_init "[4711]" None]
      registration_refused_is_atomic
        [of 1 "jobs_set_foreground 4711 [4711] 1 (Some ''vim'') full_table" "[]" None]
      full'
    by simp
qed

subsection \<open>Redirections\<close>




text \<open>
  C7.  In \<^verbatim>\<open>run_pipeline_async\<close> the rebinding of standard input to \<^verbatim>\<open>/dev/null\<close> is
  guarded by \<^verbatim>\<open>c->redir_count == 0\<close>, not by the absence of an input redirection.
  The background stage \<^verbatim>\<open>cat > out.txt &\<close> has an output redirection and no input
  redirection: its set-up succeeds and its standard input is still the terminal.
\<close>

theorem background_stage_keeps_terminal_stdin:
  "child_setup Background None None
     \<lparr>argv = [''cat''], redirs = [\<lparr>r_type = R_OUT_TRUNC, r_path = ''out.txt''\<rparr>]\<rparr> empty_fs
   = Inr (Terminal, File_write ''out.txt'' False,
          empty_fs\<lparr>files := (files empty_fs)(''out.txt'' := Some [])\<rparr>)"
  by (simp add: child_setup_def wire_def open_write_def empty_fs_def)

subsection \<open>Builtin dispatch\<close>

text \<open>
  C1.  \<^verbatim>\<open>execute_first_cmd_group\<close> calls \<^verbatim>\<open>run_builtin\<close> in the shell process for every
  single-stage pipeline that is not in the background, and looks at \<^verbatim>\<open>redir_count\<close>
  only afterwards.  For \<^verbatim>\<open>hop .. > out.txt\<close> the builtin has therefore run in the shell
  itself (the shell's \<open>ran\<close> holds \<^verbatim>\<open>hop\<close>) before \<^verbatim>\<open>run_pipeline\<close> forks the child,
  whose image already holds that run and which runs the builtin a second time, now
  with the redirection in place.
\<close>

theorem redirected_builtin_runs_in_the_shell_too:
  "(case execute_group calm_os [hop_up_redirected] ''hop .. > out.txt'' False 0 shell_init of
      Undefined_read \<Rightarrow> False
    | Defined (st, s', cs) \<Rightarrow>
        st = Some 0 \<and> ran s' = [''hop''] \<and>
        map (\<lambda>d. child_main calm_os [hop_up_redirected] d empty_fs) cs =
          [Ran (Exits 0) Terminal (File_write ''out.txt'' False)
             (empty_fs\<lparr>files := (files empty_fs)(''out.txt'' := Some [])\<rparr>)
             (shell_init\<lparr>ran := [''hop'', ''hop'']\<rparr>)])"
  by (simp add: execute_group_def run_builtin_def calm_os_def run_pipeline_def Let_def
      shell_init_def jobs_set_foreground_def first_name_def jobs_clear_foreground_def
      MAX_CMDS_def hop_up_redirected_def child_main_def child_setup_def wire_def
      open_write_def empty_fs_def sync_status_def)

subsection \<open>Facts for evaluating concrete runs\<close>

lemma show_int_values:
  "show_int 1 = ''1''" "show_int 2 = ''2''" "show_int 3 = ''3''" "show_int 4 = ''4''"
  "show_int 11 = ''11''" "show_int 100 = ''100''" "show_int 101 = ''101''"
  by (simp_all add: show_int_def show_nat.simps digit_char_def)

lemma upt_values: "[0..<1] = [0]" "[0..<2] = [0, 1]"
  by (simp_all add: upt_rec)

lemma replicate_values: "replicate 1 x = [x]" "replicate 2 x = [x, x]"
  by (simp_all add: numeral_2_eq_2)

subsection \<open>fg and bg\<close>

lemma find_from_absent: "jobnum \<notin> job_num ` set js \<Longrightarrow> find_from js jobnum i = - 1"
  by (induction js arbitrary: i) auto

lemma atoi_values:
  "atoi ''0'' = 0" "atoi ''abc'' = 0" "atoi ''4294967296'' = 0" "atoi ''4294967297'' = 1"
  by (simp_all add: atoi_def number_read_def to_long_def to_int32_def is_space_def digit_of_def)

text \<open>
  C8, for job numbers other than 0.  Failed job look-ups are statuses, and change
  nothing but the output.  When \<open>jobnum\<close> is not 0 and no job in the table carries it,
  \<open>jobs_cmd_fg\<close> and \<open>jobs_cmd_bg\<close> both return 1 and the state they were given with
  the line \<^verbatim>\<open>No such job\<close> added to the output: the job table, the job counter and the
  list of system calls are as before.  When \<open>jobs_cmd_bg\<close> selects an existing job none
  of whose stages is stopped, it returns 1 and the state it was given with the line
  \<^verbatim>\<open>Job already running\<close> added: no signal is sent and no entry of the table changes.
  The number 0 is never looked up in the table: for it both builtins start from the
  most recent job.
\<close>

theorem job_lookup_failures_change_nothing:
  "(jobnum \<noteq> 0 \<and> jobnum \<notin> job_num ` set (bg_jobs s) \<longrightarrow>
      jobs_cmd_fg rounds jobnum s = (Some 1, s\<lparr>out := out s @ [''No such job'']\<rparr>)
    \<and> jobs_cmd_bg jobnum s = (1, s\<lparr>out := out s @ [''No such job'']\<rparr>))
   \<and> (0 \<le> select_job s jobnum
       \<and> list_all (\<lambda>i. \<not> stopped (bg_jobs s ! nat (select_job s jobnum)) ! i)
            [0..<nat (npids (bg_jobs s ! nat (select_job s jobnum)))] \<longrightarrow>
      jobs_cmd_bg jobnum s = (1, s\<lparr>out := out s @ [''Job already running'']\<rparr>))
   \<and> select_job s 0 = most_recent_job_index s"
proof (intro conjI impI)
  assume a: "jobnum \<noteq> 0 \<and> jobnum \<notin> job_num ` set (bg_jobs s)"
  then have sel: "select_job s jobnum = - 1"
    by (simp add: select_job_def find_job_index_def find_from_absent)
  show "jobs_cmd_fg rounds jobnum s = (Some 1, s\<lparr>out := out s @ [''No such job'']\<rparr>)"
    by (simp add: jobs_cmd_fg_def sel)
  show "jobs_cmd_bg jobnum s = (1, s\<lparr>out := out s @ [''No such job'']\<rparr>)"
    by (simp add: jobs_cmd_bg_def sel)
next
  assume a: "0 \<le> select_job s jobnum
       \<and> list_all (\<lambda>i. \<not> stopped (bg_jobs s ! nat (select_job s jobnum)) ! i)
            [0..<nat (npids (bg_jobs s ! nat (select_job s jobnum)))]"
  then have "\<not> list_ex (\<lambda>i. \<not> finished (bg_jobs s ! nat (select_job s jobnum)) ! i
                 \<and> stopped (bg_jobs s ! nat (select_job s jobnum)) ! i)
               [0..<nat (npids (bg_jobs s ! nat (select_job s jobnum)))]"
    by (auto simp: list_all_iff list_ex_iff)
  with a show "jobs_cmd_bg jobnum s = (1, s\<lparr>out := out s @ [''Job already running'']\<rparr>)"
    by (simp add: jobs_cmd_bg_def Let_def)
next
  show "select_job s 0 = most_recent_job_index s"
    by (simp add: select_job_def)
qed

theorem job_lookup_failures_change_nothing_witness:
  "(7::int) \<noteq> 0 \<and> 7 \<notin> job_num ` set (bg_jobs two_jobs)
   \<and> jobs_cmd_fg [] 7 two_jobs = (Some 1, two_jobs\<lparr>out := [''No such job'']\<rparr>)
   \<and> jobs_cmd_bg 7 two_jobs = (1, two_jobs\<lparr>out := [''No such job'']\<rparr>)
   \<and> select_job two_jobs 3 = 1
   \<and> jobs_cmd_bg 3 two_jobs = (1, two_jobs\<lparr>out := [''Job already running'']\<rparr>)
   \<and> bg_jobs (snd (jobs_cmd_bg 3 two_jobs)) = bg_jobs two_jobs
   \<and> sys (snd (jobs_cmd_bg 3 two_jobs)) = []"
proof -
  have absent: "(7::int) \<noteq> 0 \<and> 7 \<notin> job_num ` set (bg_jobs two_jobs)"
    by (simp add: two_jobs_def job_of_def shell_init_def)
  have sel: "select_job two_jobs 3 = 1"
    by (simp add: select_job_def find_job_index_def two_jobs_def job_of_def shell_init_def)
  have running: "0 \<le> select_job two_jobs 3
       \<and> list_all (\<lambda>i. \<not> stopped (bg_jobs two_jobs ! nat (select_job two_jobs 3)) ! i)
            [0..<nat (npids (bg_jobs two_jobs ! nat (select_job two_jobs 3)))]"
    by (simp add: sel) (simp add: two_jobs_def job_of_def shell_init_def)
  have o: "out two_jobs = [] \<and> sys two_jobs = []"
    by (simp add: two_jobs_def shell_init_def)
  show ?thesis
    using absent sel running o
      job_lookup_failures_change_nothing [of 7 two_jobs "[]"]
      job_lookup_failures_change_nothing [of 3 two_jobs "[]"]
    by simp
qed

text \<open>
  The claim as the specification words it fails for the job number 0.  The table holds
  job 1, running, and job 3, stopped; no job carries the number 0, which is never
  handed out.  Yet \<^verbatim>\<open>bg 0\<close> does not print \<^verbatim>\<open>No such job\<close>: it resumes job 3, sending
  \<^verbatim>\<open>SIGCONT\<close> to its process group and clearing its stopped flag, and returns 0; and
  \<^verbatim>\<open>fg 0\<close> brings job 3 to the foreground and, once its process has exited, removes it
  from the table.  The same happens for \<^verbatim>\<open>fg 4294967296\<close>, an argument that \<^verbatim>\<open>atoi\<close>
  turns into 0.
\<close>

theorem job_number_zero_is_not_looked_up:
  "0 \<notin> job_num ` set (bg_jobs cat_stopped)
   \<and> run_builtin later_os \<lparr>argv = [''bg'', ''0''], redirs = []\<rparr> cat_stopped
       = (Some 0, cat_stopped\<lparr>ran := [''bg''],
                    bg_jobs := [job_of 1 [11] ''sleep 100 &'', job_of 3 [13] ''cat''],
                    sys := [Kill (- 13) SIGCONT], out := [''[3] cat &'']\<rparr>)
   \<and> run_builtin later_os \<lparr>argv = [''fg'', ''0''], redirs = []\<rparr> cat_stopped
       = (Some 0, cat_stopped\<lparr>ran := [''fg''],
                    bg_jobs := [job_of 1 [11] ''sleep 100 &''],
                    sys := [Tcsetpgrp (Group 13), Kill (- 13) SIGCONT,
                            Waitpid 13 {WUNTRACED, WCONTINUED, WNOHANG}, Nanosleep 30000000,
                            Waitpid 13 {WUNTRACED, WCONTINUED, WNOHANG}, Tcsetpgrp Own_group],
                    out := [''cat'']\<rparr>)
   \<and> run_builtin later_os \<lparr>argv = [''fg'', ''4294967296''], redirs = []\<rparr> cat_stopped
       = run_builtin later_os \<lparr>argv = [''fg'', ''0''], redirs = []\<rparr> cat_stopped"
proof -
  have absent: "0 \<notin> job_num ` set (bg_jobs cat_stopped)"
    by (simp add: cat_stopped_def job_of_def shell_init_def)
  have sel: "select_job (cat_stopped\<lparr>ran := x\<rparr>) 0 = 1" for x
    by (simp add: select_job_def most_recent_job_index_def bg_job_count_def cat_stopped_def)
  have bg: "run_builtin later_os \<lparr>argv = [''bg'', ''0''], redirs = []\<rparr> cat_stopped
       = (Some 0, cat_stopped\<lparr>ran := [''bg''],
                    bg_jobs := [job_of 1 [11] ''sleep 100 &'', job_of 3 [13] ''cat''],
                    sys := [Kill (- 13) SIGCONT], out := [''[3] cat &'']\<rparr>)"
    by (simp add: run_builtin_def atoi_values jobs_cmd_bg_def sel Let_def)
       (simp add: cat_stopped_def shell_init_def job_of_def upt_values replicate_values
          show_int_values)
  have fg: "run_builtin later_os \<lparr>argv = [''fg'', ''0''], redirs = []\<rparr> cat_stopped
       = (Some 0, cat_stopped\<lparr>ran := [''fg''],
                    bg_jobs := [job_of 1 [11] ''sleep 100 &''],
                    sys := [Tcsetpgrp (Group 13), Kill (- 13) SIGCONT,
                            Waitpid 13 {WUNTRACED, WCONTINUED, WNOHANG}, Nanosleep 30000000,
                            Waitpid 13 {WUNTRACED, WCONTINUED, WNOHANG}, Tcsetpgrp Own_group],
                    out := [''cat'']\<rparr>)"
    by (simp add: run_builtin_def atoi_values jobs_cmd_fg_def sel Let_def)
       (simp add: cat_stopped_def shell_init_def job_of_def later_os_def calm_os_def
          later_exit_def fg_round_def fg_stage_def fg_flags_def exit_class_def Let_def
          upt_values replicate_values)
  have big: "run_builtin later_os \<lparr>argv = [''fg'', ''4294967296''], redirs = []\<rparr> cat_stopped
       = run_builtin later_os \<lparr>argv = [''fg'', ''0''], redirs = []\<rparr> cat_stopped"
    by (simp add: run_builtin_def atoi_values)
  from absent bg fg big show ?thesis
    by simp
qed

text \<open>
  C10, with the empty table set apart.  An argument that writes the number 0, or no
  number at all, is turned into 0 by \<^verbatim>\<open>atoi\<close>.  Whenever \<^verbatim>\<open>atoi\<close> gives 0 for the
  first argument, \<open>run_builtin\<close> calls \<open>jobs_cmd_fg\<close> or \<open>jobs_cmd_bg\<close> with the job
  number 0 and does exactly what the same builtin does with no argument, on every
  state.  On a table that is not empty the job acted on is the last entry, the job
  registered most recently: \<^verbatim>\<open>fg\<close> prints its name, hands the terminal to its process
  group, sends \<^verbatim>\<open>SIGCONT\<close> if a stage is marked stopped and runs the wait loop on that
  entry (provided its first process id is positive); \<^verbatim>\<open>bg\<close> resumes it if one of its
  unfinished stages is stopped, clearing the stopped flags of that entry and printing
  \<^verbatim>\<open>[n] name &\<close>, and reports \<^verbatim>\<open>Job already running\<close> otherwise.  On an empty
  table there is no job to select, and both builtins print \<^verbatim>\<open>No such job\<close> and
  return 1.
\<close>

theorem fg_bg_argument_zero_is_no_argument:
  "(number_read a = 0 \<longrightarrow> atoi a = 0)
   \<and> (atoi a = 0 \<longrightarrow>
        run_builtin e \<lparr>argv = ''fg'' # a # rest, redirs = rs\<rparr> s
          = run_builtin e \<lparr>argv = [''fg''], redirs = rs\<rparr> s
      \<and> run_builtin e \<lparr>argv = ''fg'' # a # rest, redirs = rs\<rparr> s
          = jobs_cmd_fg (fg_rounds e) 0 (s\<lparr>ran := ran s @ [''fg'']\<rparr>)
      \<and> run_builtin e \<lparr>argv = ''bg'' # a # rest, redirs = rs\<rparr> s
          = run_builtin e \<lparr>argv = [''bg''], redirs = rs\<rparr> s
      \<and> run_builtin e \<lparr>argv = ''bg'' # a # rest, redirs = rs\<rparr> s
          = (Some (fst (jobs_cmd_bg 0 (s\<lparr>ran := ran s @ [''bg'']\<rparr>))),
             snd (jobs_cmd_bg 0 (s\<lparr>ran := ran s @ [''bg'']\<rparr>)))
      \<and> (bg_jobs s \<noteq> [] \<and> 0 < pids (last (bg_jobs s)) ! 0 \<longrightarrow>
           run_builtin e \<lparr>argv = ''fg'' # a # rest, redirs = rs\<rparr> s
             = fg_wait (fg_rounds e) (length (bg_jobs s) - 1) 0
                 (s\<lparr>ran := ran s @ [''fg''],
                    out := out s @ [cmd_name (last (bg_jobs s))],
                    sys := sys s @ [Tcsetpgrp (Group (pids (last (bg_jobs s)) ! 0))] @
                           (if list_ex (\<lambda>i. stopped (last (bg_jobs s)) ! i)
                                 [0..<nat (npids (last (bg_jobs s)))]
                            then [Kill (- (pids (last (bg_jobs s)) ! 0)) SIGCONT] else [])\<rparr>))
      \<and> (bg_jobs s \<noteq> []
           \<and> list_ex (\<lambda>i. \<not> finished (last (bg_jobs s)) ! i \<and> stopped (last (bg_jobs s)) ! i)
                [0..<nat (npids (last (bg_jobs s)))] \<longrightarrow>
           run_builtin e \<lparr>argv = ''bg'' # a # rest, redirs = rs\<rparr> s
             = (Some 0,
                s\<lparr>ran := ran s @ [''bg''],
                  bg_jobs := (bg_jobs s)[length (bg_jobs s) - 1 :=
                     (last (bg_jobs s))\<lparr>stopped := replicate (nat (npids (last (bg_jobs s)))) False\<rparr>],
                  sys := sys s @ (if pids (last (bg_jobs s)) ! 0 > 0
                                  then [Kill (- (pids (last (bg_jobs s)) ! 0)) SIGCONT] else []),
                  out := out s @ [''['' @ show_int (job_num (last (bg_jobs s))) @ ''] '' @
                                  cmd_name (last (bg_jobs s)) @ '' &'']\<rparr>))
      \<and> (bg_jobs s \<noteq> []
           \<and> \<not> list_ex (\<lambda>i. \<not> finished (last (bg_jobs s)) ! i \<and> stopped (last (bg_jobs s)) ! i)
                  [0..<nat (npids (last (bg_jobs s)))] \<longrightarrow>
           run_builtin e \<lparr>argv = ''bg'' # a # rest, redirs = rs\<rparr> s
             = (Some 1, s\<lparr>ran := ran s @ [''bg''], out := out s @ [''Job already running'']\<rparr>))
      \<and> (bg_jobs s = [] \<longrightarrow>
           run_builtin e \<lparr>argv = ''fg'' # a # rest, redirs = rs\<rparr> s
             = (Some 1, s\<lparr>ran := ran s @ [''fg''], out := out s @ [''No such job'']\<rparr>)
         \<and> run_builtin e \<lparr>argv = ''bg'' # a # rest, redirs = rs\<rparr> s
             = (Some 1, s\<lparr>ran := ran s @ [''bg''], out := out s @ [''No such job'']\<rparr>)))"
proof (intro conjI impI)
  assume "number_read a = 0"
  then show "atoi a = 0"
    by (simp add: atoi_def to_long_def to_int32_def)
next
  assume z: "atoi a = 0"
  show "run_builtin e \<lparr>argv = ''fg'' # a # rest, redirs = rs\<rparr> s
          = run_builtin e \<lparr>argv = [''fg''], redirs = rs\<rparr> s"
    by (simp add: run_builtin_def z)
  show "run_builtin e \<lparr>argv = ''bg'' # a # rest, redirs = rs\<rparr> s
          = run_builtin e \<lparr>argv = [''bg''], redirs = rs\<rparr> s"
    by (simp add: run_builtin_def z)
  show fg: "run_builtin e \<lparr>argv = ''fg'' # a # rest, redirs = rs\<rparr> s
          = jobs_cmd_fg (fg_rounds e) 0 (s\<lparr>ran := ran s @ [''fg'']\<rparr>)"
    by (simp add: run_builtin_def z)
  show bg: "run_builtin e \<lparr>argv = ''bg'' # a # rest, redirs = rs\<rparr> s
          = (Some (fst (jobs_cmd_bg 0 (s\<lparr>ran := ran s @ [''bg'']\<rparr>))),
             snd (jobs_cmd_bg 0 (s\<lparr>ran := ran s @ [''bg'']\<rparr>)))"
    by (simp add: run_builtin_def z case_prod_beta)
  {
    assume ne: "bg_jobs s \<noteq> [] \<and> 0 < pids (last (bg_jobs s)) ! 0"
    then have sel: "select_job (s\<lparr>ran := ran s @ [''fg'']\<rparr>) 0 = int (length (bg_jobs s)) - 1"
      by (simp add: select_job_def most_recent_job_index_def bg_job_count_def)
    from ne have idx: "nat (int (length (bg_jobs s)) - 1) = length (bg_jobs s) - 1"
      by (simp add: nat_diff_distrib')
    from ne have lst: "bg_jobs s ! (length (bg_jobs s) - Suc 0) = last (bg_jobs s)"
      by (simp add: last_conv_nth)
    from ne have nonneg: "\<not> int (length (bg_jobs s)) - 1 < 0"
      by (cases "bg_jobs s") simp_all
    from ne nonneg show "run_builtin e \<lparr>argv = ''fg'' # a # rest, redirs = rs\<rparr> s
             = fg_wait (fg_rounds e) (length (bg_jobs s) - 1) 0
                 (s\<lparr>ran := ran s @ [''fg''],
                    out := out s @ [cmd_name (last (bg_jobs s))],
                    sys := sys s @ [Tcsetpgrp (Group (pids (last (bg_jobs s)) ! 0))] @
                           (if list_ex (\<lambda>i. stopped (last (bg_jobs s)) ! i)
                                 [0..<nat (npids (last (bg_jobs s)))]
                            then [Kill (- (pids (last (bg_jobs s)) ! 0)) SIGCONT] else [])\<rparr>)"
      unfolding fg by (simp add: jobs_cmd_fg_def sel idx lst Let_def)
  }
  {
    assume ne: "bg_jobs s \<noteq> []
           \<and> list_ex (\<lambda>i. \<not> finished (last (bg_jobs s)) ! i \<and> stopped (last (bg_jobs s)) ! i)
                [0..<nat (npids (last (bg_jobs s)))]"
    then have sel: "select_job (s\<lparr>ran := ran s @ [''bg'']\<rparr>) 0 = int (length (bg_jobs s)) - 1"
      by (simp add: select_job_def most_recent_job_index_def bg_job_count_def)
    from ne have idx: "nat (int (length (bg_jobs s)) - 1) = length (bg_jobs s) - 1"
      by (simp add: nat_diff_distrib')
    from ne have lst: "bg_jobs s ! (length (bg_jobs s) - Suc 0) = last (bg_jobs s)"
      by (simp add: last_conv_nth)
    from ne have nonneg: "\<not> int (length (bg_jobs s)) - 1 < 0"
      by (cases "bg_jobs s") simp_all
    from ne nonneg show "run_builtin e \<lparr>argv = ''bg'' # a # rest, redirs = rs\<rparr> s
             = (Some 0,
                s\<lparr>ran := ran s @ [''bg''],
                  bg_jobs := (bg_jobs s)[length (bg_jobs s) - 1 :=
                     (last (bg_jobs s))\<lparr>stopped := replicate (nat (npids (last (bg_jobs s)))) False\<rparr>],
                  sys := sys s @ (if pids (last (bg_jobs s)) ! 0 > 0
                                  then [Kill (- (pids (last (bg_jobs s)) ! 0)) SIGCONT] else []),
                  out := out s @ [''['' @ show_int (job_num (last (bg_jobs s))) @ ''] '' @
                                  cmd_name (last (bg_jobs s)) @ '' &'']\<rparr>)"
      unfolding bg by (simp add: jobs_cmd_bg_def sel idx lst Let_def)
  }
  {
    assume ne: "bg_jobs s \<noteq> []
           \<and> \<not> list_ex (\<lambda>i. \<not> finished (last (bg_jobs s)) ! i \<and> stopped (last (bg_jobs s)) ! i)
                  [0..<nat (npids (last (bg_jobs s)))]"
    then have sel: "select_job (s\<lparr>ran := ran s @ [''bg'']\<rparr>) 0 = int (length (bg_jobs s)) - 1"
      by (simp add: select_job_def most_recent_job_index_def bg_job_count_def)
    from ne have idx: "nat (int (length (bg_jobs s)) - 1) = length (bg_jobs s) - 1"
      by (simp add: nat_diff_distrib')
    from ne have lst: "bg_jobs s ! (length (bg_jobs s) - Suc 0) = last (bg_jobs s)"
      by (simp add: last_conv_nth)
    from ne have nonneg: "\<not> int (length (bg_jobs s)) - 1 < 0"
      by (cases "bg_jobs s") simp_all
    from ne nonneg show "run_builtin e \<lparr>argv = ''bg'' # a # rest, redirs = rs\<rparr> s
             = (Some 1, s\<lparr>ran := ran s @ [''bg''], out := out s @ [''Job already running'']\<rparr>)"
      unfolding bg by (simp add: jobs_cmd_bg_def sel idx lst Let_def)
  }
  {
    assume em: "bg_jobs s = []"
    then have sel: "select_job (s\<lparr>ran := x\<rparr>) 0 = - 1" for x
      by (simp add: select_job_def most_recent_job_index_def bg_job_count_def)
    show "run_builtin e \<lparr>argv = ''fg'' # a # rest, redirs = rs\<rparr> s
             = (Some 1, s\<lparr>ran := ran s @ [''fg''], out := out s @ [''No such job'']\<rparr>)"
      unfolding fg by (simp add: jobs_cmd_fg_def sel)
    show "run_builtin e \<lparr>argv = ''bg'' # a # rest, redirs = rs\<rparr> s
             = (Some 1, s\<lparr>ran := ran s @ [''bg''], out := out s @ [''No such job'']\<rparr>)"
      unfolding bg by (simp add: jobs_cmd_bg_def sel)
  }
qed

theorem fg_bg_argument_zero_is_no_argument_witness:
  "number_read ''abc'' = 0 \<and> atoi ''abc'' = 0 \<and> atoi ''0'' = 0
   \<and> run_builtin later_os \<lparr>argv = [''fg'', ''abc''], redirs = []\<rparr> two_jobs
       = run_builtin later_os \<lparr>argv = [''fg''], redirs = []\<rparr> two_jobs
   \<and> run_builtin later_os \<lparr>argv = [''fg'', ''abc''], redirs = []\<rparr> two_jobs
       = fg_wait later_exit 1 0
           (two_jobs\<lparr>ran := [''fg''], out := [''cat &''], sys := [Tcsetpgrp (Group 13)]\<rparr>)
   \<and> run_builtin later_os \<lparr>argv = [''fg'', ''abc''], redirs = []\<rparr> two_jobs
       = (Some 0, two_jobs\<lparr>ran := [''fg''], bg_jobs := [job_of 1 [11] ''sleep 100 &''],
                    out := [''cat &''],
                    sys := [Tcsetpgrp (Group 13),
                            Waitpid 13 {WUNTRACED, WCONTINUED, WNOHANG}, Nanosleep 30000000,
                            Waitpid 13 {WUNTRACED, WCONTINUED, WNOHANG}, Tcsetpgrp Own_group]\<rparr>)
   \<and> run_builtin later_os \<lparr>argv = [''bg'', ''0''], redirs = []\<rparr> cat_stopped
       = (Some 0, cat_stopped\<lparr>ran := [''bg''],
                    bg_jobs := [job_of 1 [11] ''sleep 100 &'', job_of 3 [13] ''cat''],
                    sys := [Kill (- 13) SIGCONT], out := [''[3] cat &'']\<rparr>)
   \<and> run_builtin later_os \<lparr>argv = [''bg'', ''0''], redirs = []\<rparr> two_jobs
       = (Some 1, two_jobs\<lparr>ran := [''bg''], out := [''Job already running'']\<rparr>)
   \<and> run_builtin later_os \<lparr>argv = [''fg'', ''abc''], redirs = []\<rparr> shell_init
       = (Some 1, shell_init\<lparr>ran := [''fg''], out := [''No such job'']\<rparr>)"
proof -
  have nr: "number_read ''abc'' = 0"
    by (simp add: number_read_def is_space_def digit_of_def)
  have abc: "atoi ''abc'' = 0"
    using fg_bg_argument_zero_is_no_argument
      [of "''abc''" later_os "[]" "[]" two_jobs, THEN conjunct1, THEN mp, OF nr] .
  note D = fg_bg_argument_zero_is_no_argument
    [of "''abc''" later_os "[]" "[]" shell_init, THEN conjunct2, THEN mp, OF abc]
  have em: "bg_jobs shell_init = []" "ran shell_init = []" "out shell_init = []"
    by (simp_all add: shell_init_def)
  have r5: "run_builtin later_os \<lparr>argv = [''fg'', ''abc''], redirs = []\<rparr> shell_init
       = (Some 1, shell_init\<lparr>ran := [''fg''], out := [''No such job'']\<rparr>)"
    using D [THEN conjunct2, THEN conjunct2, THEN conjunct2, THEN conjunct2, THEN conjunct2,
             THEN conjunct2, THEN conjunct2, THEN mp, OF em(1), THEN conjunct1]
    by (simp add: em)
  note A = fg_bg_argument_zero_is_no_argument
    [of "''abc''" later_os "[]" "[]" two_jobs, THEN conjunct2, THEN mp, OF abc]
  note B = fg_bg_argument_zero_is_no_argument
    [of "''0''" later_os "[]" "[]" cat_stopped, THEN conjunct2, THEN mp, OF atoi_values(1)]
  note C = fg_bg_argument_zero_is_no_argument
    [of "''0''" later_os "[]" "[]" two_jobs, THEN conjunct2, THEN mp, OF atoi_values(1)]
  have t2: "bg_jobs two_jobs \<noteq> []" "last (bg_jobs two_jobs) = job_of 3 [13] ''cat &''"
    "length (bg_jobs two_jobs) = 2" "ran two_jobs = []" "out two_jobs = []"
    "sys two_jobs = []"
    by (simp_all add: two_jobs_def shell_init_def)
  have cs: "bg_jobs cat_stopped \<noteq> []"
    "last (bg_jobs cat_stopped) = (job_of 3 [13] ''cat'')\<lparr>stopped := [True]\<rparr>"
    "length (bg_jobs cat_stopped) = 2" "ran cat_stopped = []" "out cat_stopped = []"
    "sys cat_stopped = []"
    by (simp_all add: cat_stopped_def shell_init_def)
  have r1: "run_builtin later_os \<lparr>argv = [''fg'', ''abc''], redirs = []\<rparr> two_jobs
       = run_builtin later_os \<lparr>argv = [''fg''], redirs = []\<rparr> two_jobs"
    using A [THEN conjunct1] .
  have r2: "run_builtin later_os \<lparr>argv = [''fg'', ''abc''], redirs = []\<rparr> two_jobs
       = fg_wait later_exit 1 0
           (two_jobs\<lparr>ran := [''fg''], out := [''cat &''], sys := [Tcsetpgrp (Group 13)]\<rparr>)"
    using A [THEN conjunct2, THEN conjunct2, THEN conjunct2, THEN conjunct2, THEN conjunct1]
    by (simp add: t2 job_of_def upt_values replicate_values later_os_def calm_os_def)
  have r2': "run_builtin later_os \<lparr>argv = [''fg'', ''abc''], redirs = []\<rparr> two_jobs
       = (Some 0, two_jobs\<lparr>ran := [''fg''], bg_jobs := [job_of 1 [11] ''sleep 100 &''],
                    out := [''cat &''],
                    sys := [Tcsetpgrp (Group 13),
                            Waitpid 13 {WUNTRACED, WCONTINUED, WNOHANG}, Nanosleep 30000000,
                            Waitpid 13 {WUNTRACED, WCONTINUED, WNOHANG}, Tcsetpgrp Own_group]\<rparr>)"
    unfolding r2
    by (simp add: two_jobs_def shell_init_def job_of_def later_exit_def fg_round_def
        fg_stage_def fg_flags_def exit_class_def Let_def upt_values replicate_values)
  have r3: "run_builtin later_os \<lparr>argv = [''bg'', ''0''], redirs = []\<rparr> cat_stopped
       = (Some 0, cat_stopped\<lparr>ran := [''bg''],
                    bg_jobs := [job_of 1 [11] ''sleep 100 &'', job_of 3 [13] ''cat''],
                    sys := [Kill (- 13) SIGCONT], out := [''[3] cat &'']\<rparr>)"
    using B [THEN conjunct2, THEN conjunct2, THEN conjunct2, THEN conjunct2, THEN conjunct2,
             THEN conjunct1]
    by (simp add: cs job_of_def upt_values replicate_values show_int_values)
       (simp add: cat_stopped_def job_of_def shell_init_def)
  have r4: "run_builtin later_os \<lparr>argv = [''bg'', ''0''], redirs = []\<rparr> two_jobs
       = (Some 1, two_jobs\<lparr>ran := [''bg''], out := [''Job already running'']\<rparr>)"
    using C [THEN conjunct2, THEN conjunct2, THEN conjunct2, THEN conjunct2, THEN conjunct2,
             THEN conjunct2, THEN conjunct1]
    by (simp add: t2 job_of_def upt_values replicate_values)
  from nr abc atoi_values(1) r1 r2 r2' r3 r4 r5 show ?thesis
    by (simp only: simp_thms)
qed

text \<open>
  The claim as the specification words it fails on an empty job table: \<^verbatim>\<open>fg 0\<close> and
  \<^verbatim>\<open>bg abc\<close> have no most recent job to select and report \<^verbatim>\<open>No such job\<close>, as
  \<^verbatim>\<open>fg\<close> and \<^verbatim>\<open>bg\<close> without argument do.
\<close>

theorem fg_zero_on_an_empty_table_reports_no_such_job:
  "atoi ''0'' = 0 \<and> atoi ''abc'' = 0
   \<and> run_builtin calm_os \<lparr>argv = [''fg'', ''0''], redirs = []\<rparr> shell_init
       = (Some 1, shell_init\<lparr>ran := [''fg''], out := [''No such job'']\<rparr>)
   \<and> run_builtin calm_os \<lparr>argv = [''bg'', ''abc''], redirs = []\<rparr> shell_init
       = (Some 1, shell_init\<lparr>ran := [''bg''], out := [''No such job'']\<rparr>)
   \<and> run_builtin calm_os \<lparr>argv = [''fg''], redirs = []\<rparr> shell_init
       = (Some 1, shell_init\<lparr>ran := [''fg''], out := [''No such job'']\<rparr>)"
  by (simp add: atoi_values run_builtin_def jobs_cmd_fg_def jobs_cmd_bg_def select_job_def
      most_recent_job_index_def bg_job_count_def shell_init_def)

subsection \<open>The poller\<close>

lemma poll_stage_frame:
  "poll_stage w k (j0, a0) = (jk, ad) \<Longrightarrow>
     pids jk = pids j0 \<and> npids jk = npids j0 \<and> cmd_name jk = cmd_name j0
   \<and> job_num jk = job_num j0 \<and> (\<forall>j. j \<noteq> k \<longrightarrow> finished jk ! j = finished j0 ! j)"
  by (auto simp: poll_stage_def split: if_splits wait_result.splits)

lemma poll_stage_all_done:
  "poll_stage w k (j0, a0) = (jk, ad) \<Longrightarrow>
     (ad \<longleftrightarrow> a0 \<and> (finished j0 ! k \<or> \<not> keeps_waiting (w (pids j0 ! k))))"
  by (auto simp: poll_stage_def keeps_waiting_def split: if_splits wait_result.splits)

lemma poll_stage_last_status:
  "poll_stage w k (j0, a0) = (jk, ad) \<Longrightarrow>
     last_status jk =
       (if \<not> finished j0 ! k \<and> terminated (w (pids j0 ! k)) \<and> int k = npids j0 - 1
        then exit_class (w (pids j0 ! k)) else last_status j0)"
  by (auto simp: poll_stage_def terminated_def split: if_splits wait_result.splits)

lemma poll_fold_frame:
  "fold (poll_stage w) [0..<k] (job, True) = (jk, ad) \<Longrightarrow>
     pids jk = pids job \<and> npids jk = npids job \<and> cmd_name jk = cmd_name job
   \<and> job_num jk = job_num job \<and> (\<forall>j\<ge>k. finished jk ! j = finished job ! j)"
proof (induction k arbitrary: jk ad)
  case 0
  then show ?case by simp
next
  case (Suc k)
  obtain j0 a0 where f: "fold (poll_stage w) [0..<k] (job, True) = (j0, a0)"
    by (cases "fold (poll_stage w) [0..<k] (job, True)")
  from Suc.prems f have step: "poll_stage w k (j0, a0) = (jk, ad)"
    by simp
  from Suc.IH [OF f] poll_stage_frame [OF step] show ?case
    by simp
qed

lemma poll_fold_all_done:
  "fold (poll_stage w) [0..<k] (job, True) = (jk, ad) \<Longrightarrow>
     (ad \<longleftrightarrow> (\<forall>j<k. finished job ! j \<or> \<not> keeps_waiting (w (pids job ! j))))"
proof (induction k arbitrary: jk ad)
  case 0
  then show ?case by simp
next
  case (Suc k)
  obtain j0 a0 where f: "fold (poll_stage w) [0..<k] (job, True) = (j0, a0)"
    by (cases "fold (poll_stage w) [0..<k] (job, True)")
  from Suc.prems f have step: "poll_stage w k (j0, a0) = (jk, ad)"
    by simp
  have fr: "pids j0 = pids job" "finished j0 ! k = finished job ! k"
    using poll_fold_frame [OF f] by simp_all
  from Suc.IH [OF f] poll_stage_all_done [OF step] fr show ?case
    by (simp add: less_Suc_eq) blast
qed

lemma poll_fold_last_status:
  "fold (poll_stage w) [0..<k] (job, True) = (jk, ad) \<Longrightarrow>
     last_status jk =
       (if 0 < npids job \<and> nat (npids job - 1) < k \<and> \<not> finished job ! nat (npids job - 1)
           \<and> terminated (w (pids job ! nat (npids job - 1)))
        then exit_class (w (pids job ! nat (npids job - 1))) else last_status job)"
proof (induction k arbitrary: jk ad)
  case 0
  then show ?case by simp
next
  case (Suc k)
  obtain j0 a0 where f: "fold (poll_stage w) [0..<k] (job, True) = (j0, a0)"
    by (cases "fold (poll_stage w) [0..<k] (job, True)")
  from Suc.prems f have step: "poll_stage w k (j0, a0) = (jk, ad)"
    by simp
  have fr: "pids j0 = pids job" "finished j0 ! k = finished job ! k" "npids j0 = npids job"
    using poll_fold_frame [OF f] by simp_all
  show ?case
  proof (cases "int k = npids job - 1")
    case True
    then have k: "nat (npids job - 1) = k" "0 < npids job" by auto
    from Suc.IH [OF f] poll_stage_last_status [OF step] fr True k show ?thesis
      by simp
  next
    case False
    then have "\<not> (0 < npids job \<and> nat (npids job - 1) = k)" by auto
    with Suc.IH [OF f] poll_stage_last_status [OF step] fr False show ?thesis
      by (auto simp: less_Suc_eq)
  qed
qed

lemma poll_jobs_filter:
  "poll_jobs w js =
     (map (\<lambda>j. fst (poll_job w j)) (filter (\<lambda>j. \<not> snd (poll_job w j)) js),
      map (\<lambda>j. exit_message (fst (poll_job w j))) (filter (\<lambda>j. snd (poll_job w j)) js))"
  by (induction js) (auto split: prod.splits)

text \<open>
  What one sweep of the poller does.  It keeps, in order and with their flags brought
  up to date, exactly the jobs whose sweep ends with \<^verbatim>\<open>all_done\<close> clear, and prints one
  line for each of the others.  \<^verbatim>\<open>all_done\<close> stays set exactly when every stage of the
  job was already marked finished or gets an answer other than "no change", "stopped"
  and "continued".  The line is the display name, \<^verbatim>\<open>with pid\<close>, the process id of the
  last stage, and \<^verbatim>\<open>exited normally\<close> if the recorded \<open>last_status\<close> is 0,
  \<^verbatim>\<open>exited abnormally\<close> otherwise.  In the sweep in which the poller itself sees the
  last stage end, \<open>last_status\<close> becomes 0 if that stage exited with status 0 and 1
  otherwise, whatever the other stages did; every other sweep leaves it as it was.
\<close>


lemma poll_sweep:
  "bg_jobs (jobs_poll w s)
     = map (\<lambda>j. fst (poll_job w j)) (filter (\<lambda>j. \<not> snd (poll_job w j)) (bg_jobs s))
   \<and> out (jobs_poll w s)
     = out s @ map (\<lambda>j. exit_message (fst (poll_job w j)))
                (filter (\<lambda>j. snd (poll_job w j)) (bg_jobs s))
   \<and> (snd (poll_job w job) \<longleftrightarrow>
        list_all (\<lambda>j. finished job ! j \<or> \<not> keeps_waiting (w (pids job ! j)))
          [0..<nat (npids job)])
   \<and> exit_message (fst (poll_job w job))
     = cmd_name job @ '' with pid '' @ show_int (pids job ! nat (npids job - 1)) @
       (if last_status (fst (poll_job w job)) = 0 then '' exited normally''
        else '' exited abnormally'')
   \<and> (0 < npids job \<and> \<not> finished job ! nat (npids job - 1)
        \<and> terminated (w (pids job ! nat (npids job - 1))) \<longrightarrow>
      (last_status (fst (poll_job w job)) = 0 \<longleftrightarrow> w (pids job ! nat (npids job - 1)) = W_Exited 0))
   \<and> (\<not> (0 < npids job \<and> \<not> finished job ! nat (npids job - 1)
           \<and> terminated (w (pids job ! nat (npids job - 1)))) \<longrightarrow>
      last_status (fst (poll_job w job)) = last_status job)"
proof -
  obtain jk ad where f: "fold (poll_stage w) [0..<nat (npids job)] (job, True) = (jk, ad)"
    by (cases "fold (poll_stage w) [0..<nat (npids job)] (job, True)")
  then have pj: "poll_job w job = (jk, ad)"
    by (simp add: poll_job_def)
  note frame = poll_fold_frame [OF f]
  have tbl: "bg_jobs (jobs_poll w s)
     = map (\<lambda>j. fst (poll_job w j)) (filter (\<lambda>j. \<not> snd (poll_job w j)) (bg_jobs s))"
    by (simp add: jobs_poll_def poll_jobs_filter)
  have outp: "out (jobs_poll w s)
     = out s @ map (\<lambda>j. exit_message (fst (poll_job w j)))
                (filter (\<lambda>j. snd (poll_job w j)) (bg_jobs s))"
    by (simp add: jobs_poll_def poll_jobs_filter)
  have ad: "snd (poll_job w job) \<longleftrightarrow>
        list_all (\<lambda>j. finished job ! j \<or> \<not> keeps_waiting (w (pids job ! j)))
          [0..<nat (npids job)]"
    using poll_fold_all_done [OF f] by (auto simp: pj list_all_iff)
  have msg: "exit_message (fst (poll_job w job))
     = cmd_name job @ '' with pid '' @ show_int (pids job ! nat (npids job - 1)) @
       (if last_status (fst (poll_job w job)) = 0 then '' exited normally''
        else '' exited abnormally'')"
    using frame by (simp add: pj exit_message_def)
  have ls: "last_status (fst (poll_job w job)) =
       (if 0 < npids job \<and> \<not> finished job ! nat (npids job - 1)
           \<and> terminated (w (pids job ! nat (npids job - 1)))
        then exit_class (w (pids job ! nat (npids job - 1))) else last_status job)"
    using poll_fold_last_status [OF f] by (simp add: pj)
  have seen: "0 < npids job \<and> \<not> finished job ! nat (npids job - 1)
        \<and> terminated (w (pids job ! nat (npids job - 1))) \<longrightarrow>
      (last_status (fst (poll_job w job)) = 0 \<longleftrightarrow> w (pids job ! nat (npids job - 1)) = W_Exited 0)"
    by (simp add: ls) (auto simp: exit_class_def terminated_def split: wait_result.splits)
  have unseen: "\<not> (0 < npids job \<and> \<not> finished job ! nat (npids job - 1)
           \<and> terminated (w (pids job ! nat (npids job - 1)))) \<longrightarrow>
      last_status (fst (poll_job w job)) = last_status job"
    by (simp add: ls)
  from tbl outp ad msg seen unseen show ?thesis
    by blast
qed

lemma poll_sweep_make_tee:
  "snd (poll_job first_fails make_tee)
   \<and> 0 < npids make_tee
   \<and> terminated (first_fails 11)
   \<and> last_status (fst (poll_job first_fails make_tee)) = 0
   \<and> bg_jobs (jobs_poll first_fails (shell_init\<lparr>bg_jobs := [make_tee]\<rparr>)) = []
   \<and> out (jobs_poll first_fails (shell_init\<lparr>bg_jobs := [make_tee]\<rparr>))
       = [''make | tee with pid 11 exited normally'']"
proof -
  note T = poll_sweep
    [of first_fails "shell_init\<lparr>bg_jobs := [make_tee]\<rparr>" make_tee]
  have sweep: "list_all (\<lambda>j. finished make_tee ! j
                  \<or> \<not> keeps_waiting (first_fails (pids make_tee ! j)))
          [0..<nat (npids make_tee)]"
    by (simp add: make_tee_def job_of_def upt_values first_fails_def keeps_waiting_def)
  have n: "0 < npids make_tee" "nat (npids make_tee - 1) = 1"
    by (simp_all add: make_tee_def job_of_def)
  have lp: "pids make_tee ! 1 = 11" "\<not> finished make_tee ! 1" "cmd_name make_tee = ''make | tee''"
    by (simp_all add: make_tee_def job_of_def replicate_values)
  have t: "terminated (first_fails 11)" "first_fails 11 = W_Exited 0"
    by (simp_all add: first_fails_def terminated_def)
  have removed: "snd (poll_job first_fails make_tee)"
    using T [THEN conjunct2, THEN conjunct2, THEN conjunct1] sweep by simp
  have normal: "last_status (fst (poll_job first_fails make_tee)) = 0"
    using T [THEN conjunct2, THEN conjunct2, THEN conjunct2, THEN conjunct2, THEN conjunct1]
      n lp t
    by simp
  have msg: "exit_message (fst (poll_job first_fails make_tee))
      = ''make | tee with pid 11 exited normally''"
    using T [THEN conjunct2, THEN conjunct2, THEN conjunct2, THEN conjunct1] n lp normal
    by (simp add: show_int_values)
  have tbl: "bg_jobs (jobs_poll first_fails (shell_init\<lparr>bg_jobs := [make_tee]\<rparr>)) = []"
    using T [THEN conjunct1] removed by simp
  have outp: "out (jobs_poll first_fails (shell_init\<lparr>bg_jobs := [make_tee]\<rparr>))
       = [''make | tee with pid 11 exited normally'']"
    using T [THEN conjunct2, THEN conjunct1] removed msg by (simp add: shell_init_def)
  from removed n(1) t(1) normal tbl outp show ?thesis
    by simp
qed

text \<open>
  C5.  The status of a last stage that ended in the foreground is lost.
  \<^verbatim>\<open>sleep 5 | false\<close> is run in the foreground and stopped while \<^verbatim>\<open>sleep\<close> runs: the
  wait loop of \<open>run_pipeline\<close> has by then waited for the last stage and collected its
  exit status 1, but \<open>jobs_move_foreground_to_background_stopped\<close> registers the
  pipeline as job 1 with no stage marked finished and \<open>last_status\<close> 0.  \<^verbatim>\<open>bg\<close>
  resumes the job, and in a later sweep of the poller the first stage has exited while
  the last one cannot be waited for a second time.  The poller removes the job although
  its last stage is not marked finished, and prints that it exited normally although
  the last stage exited with status 1.
\<close>

theorem poll_classifies_unseen_exit_as_normal:
  "(case run_pipeline stop_os sleep_false shell_init of
      (st, s1, cs) \<Rightarrow>
        st = Some 148 \<and>
        (case jobs_cmd_bg 0 s1 of
           (st2, s2) \<Rightarrow>
             st2 = 0
             \<and> map (\<lambda>j. finished (fst (poll_job reaped j))) (bg_jobs s2) = [[True, False]]
             \<and> bg_jobs (jobs_poll reaped s2) = []
             \<and> out (jobs_poll reaped s2) =
                 [''[1] Stopped sleep'', ''[1] sleep &'', ''sleep with pid 101 exited normally'']))"
  by (simp add: run_pipeline_def sleep_false_def stop_os_def calm_os_def shell_init_def Let_def
      jobs_set_foreground_def first_name_def jobs_clear_foreground_def MAX_CMDS_def
      jobs_move_foreground_to_background_stopped_def bg_job_count_def MAX_BG_JOBS_def
      jobs_cmd_bg_def select_job_def most_recent_job_index_def
      jobs_poll_def poll_job_def poll_stage_def reaped_def exit_message_def exit_class_def
      sync_status_def show_int_values upt_values replicate_values)

subsection \<open>Job numbers\<close>

lemma to_int32_small: "- 2147483648 \<le> x \<Longrightarrow> x \<le> 2147483647 \<Longrightarrow> to_int32 x = x"
  by (simp add: to_int32_def)

lemma to_int32_wrap: "to_int32 2147483648 = - 2147483648"
  by (simp add: to_int32_def)

lemma sorted_wrt_remove_nth:
  "sorted_wrt (<) (xs :: int list) \<Longrightarrow> sorted_wrt (<) (take i xs @ drop (Suc i) xs)"
proof -
  assume s: "sorted_wrt (<) xs"
  have "sorted_wrt (<) (take i xs @ drop i xs)"
    using s by simp
  then have cross: "\<forall>x\<in>set (take i xs). \<forall>y\<in>set (drop i xs). x < y"
    by (simp only: sorted_wrt_append) blast
  have sub: "set (drop (Suc i) xs) \<subseteq> set (drop i xs)"
    by (metis drop_Suc set_drop_subset tl_drop drop_drop plus_1_eq_Suc)
  from s cross sub show ?thesis
    by (auto simp: sorted_wrt_append sorted_wrt_take sorted_wrt_drop)
qed

lemma nums_update:
  "job_num j' = job_num (js ! idx) \<Longrightarrow> map job_num (js[idx := j']) = map job_num js"
  by (cases "idx < length js") (simp_all add: map_update list_update_same_conv list_update_beyond)

lemma fg_stage_frame:
  "job_num (lv_job (fg_stage w i v)) = job_num (lv_job v)
   \<and> npids (lv_job (fg_stage w i v)) = npids (lv_job v)
   \<and> pids (lv_job (fg_stage w i v)) = pids (lv_job v)
   \<and> cmd_name (lv_job (fg_stage w i v)) = cmd_name (lv_job v)"
  by (simp add: fg_stage_def Let_def split: wait_result.splits)

lemma fg_fold_frame:
  "job_num (lv_job (fold (fg_stage w) xs v)) = job_num (lv_job v)
   \<and> npids (lv_job (fold (fg_stage w) xs v)) = npids (lv_job v)
   \<and> pids (lv_job (fold (fg_stage w) xs v)) = pids (lv_job v)
   \<and> cmd_name (lv_job (fold (fg_stage w) xs v)) = cmd_name (lv_job v)"
  by (induction xs arbitrary: v) (simp_all add: fg_stage_frame)

lemma fg_round_frame:
  "job_num (lv_job (fg_round w job sc)) = job_num job
   \<and> npids (lv_job (fg_round w job sc)) = npids job
   \<and> pids (lv_job (fg_round w job sc)) = pids job
   \<and> cmd_name (lv_job (fg_round w job sc)) = cmd_name job"
  using fg_fold_frame [of w "[0..<nat (npids job)]"
      "\<lparr>lv_job = job, lv_all_done = True, lv_stopped = False, lv_status_code = sc, lv_calls = []\<rparr>"]
  by (simp add: fg_round_def)

lemma table_ok_nums:
  "table_ok s \<longleftrightarrow> 1 \<le> next_job_number s \<and> next_job_number s \<le> 2147483647
     \<and> sorted_wrt (<) (nums s) \<and> (\<forall>n\<in>set (nums s). n < next_job_number s)"
  by (auto simp: table_ok_def nums_def list_all_iff)

lemma fg_wait_keeps:
  "next_job_number (snd (fg_wait ws idx sc s)) = next_job_number s
   \<and> (nums (snd (fg_wait ws idx sc s)) = nums s
      \<or> nums (snd (fg_wait ws idx sc s)) = take idx (nums s) @ drop (Suc idx) (nums s))"
proof (induction ws arbitrary: sc s)
  case Nil
  then show ?case by simp
next
  case (Cons w ws)
  let ?v = "fg_round w (bg_jobs s ! idx) sc"
  let ?s1 = "s\<lparr>bg_jobs := (bg_jobs s)[idx := lv_job ?v], sys := sys s @ lv_calls ?v\<rparr>"
  have n1: "nums ?s1 = nums s"
    using fg_round_frame [of w "bg_jobs s ! idx" sc] by (simp add: nums_def nums_update)
  have n2: "nums (?s1\<lparr>bg_jobs := take idx (bg_jobs ?s1) @ drop (Suc idx) (bg_jobs ?s1)\<rparr>)
              = take idx (nums s) @ drop (Suc idx) (nums s)"
    using n1 by (simp add: nums_def take_map drop_map)
  have ih: "next_job_number (snd (fg_wait ws idx (lv_status_code ?v) (?s1\<lparr>sys := sys ?s1 @ [Nanosleep 30000000]\<rparr>))) = next_job_number s
     \<and> (nums (snd (fg_wait ws idx (lv_status_code ?v) (?s1\<lparr>sys := sys ?s1 @ [Nanosleep 30000000]\<rparr>))) = nums s
      \<or> nums (snd (fg_wait ws idx (lv_status_code ?v) (?s1\<lparr>sys := sys ?s1 @ [Nanosleep 30000000]\<rparr>))) = take idx (nums s) @ drop (Suc idx) (nums s))"
    using Cons.IH [of "lv_status_code ?v" "?s1\<lparr>sys := sys ?s1 @ [Nanosleep 30000000]\<rparr>"] n1
    by (simp add: nums_def)
  show ?case
  proof (cases "lv_stopped ?v")
    case True
    then show ?thesis using n1 by (simp add: Let_def nums_def)
  next
    case False
    show ?thesis
    proof (cases "lv_all_done ?v")
      case True
      with False show ?thesis using n2 by (simp add: Let_def nums_def)
    next
      case ad: False
      with False ih show ?thesis by (simp add: Let_def)
    qed
  qed
qed

lemma remove_keeps:
  "(sorted_wrt (<) (xs :: int list) \<longrightarrow> sorted_wrt (<) (take i xs @ drop (Suc i) xs))
   \<and> set (take i xs @ drop (Suc i) xs) \<subseteq> set xs"
  using sorted_wrt_remove_nth [of xs i]
  by (auto dest: in_set_takeD in_set_dropD)

text \<open>
  The calls that register nothing leave the counter alone and can only take entries
  out of the table.
\<close>

lemma jobs_cmd_fg_keeps:
  "next_job_number (snd (jobs_cmd_fg rounds jobnum s)) = next_job_number s
   \<and> (sorted_wrt (<) (nums s) \<longrightarrow> sorted_wrt (<) (nums (snd (jobs_cmd_fg rounds jobnum s))))
   \<and> set (nums (snd (jobs_cmd_fg rounds jobnum s))) \<subseteq> set (nums s)"
proof (cases "select_job s jobnum < 0 \<or> pids (bg_jobs s ! nat (select_job s jobnum)) ! 0 \<le> 0")
  case True
  then have "snd (jobs_cmd_fg rounds jobnum s) = s\<lparr>out := out s @ [''No such job'']\<rparr>"
    by (auto simp: jobs_cmd_fg_def Let_def)
  then show ?thesis
    by (simp add: nums_def)
next
  case False
  define s0 where "s0 = s\<lparr>out := out s @ [cmd_name (bg_jobs s ! nat (select_job s jobnum))],
                   sys := sys s @ [Tcsetpgrp (Group (pids (bg_jobs s ! nat (select_job s jobnum)) ! 0))] @
                          (if list_ex (\<lambda>i. stopped (bg_jobs s ! nat (select_job s jobnum)) ! i)
                                [0..<nat (npids (bg_jobs s ! nat (select_job s jobnum)))]
                           then [Kill (- (pids (bg_jobs s ! nat (select_job s jobnum)) ! 0)) SIGCONT] else [])\<rparr>"
  from False have r: "jobs_cmd_fg rounds jobnum s = fg_wait rounds (nat (select_job s jobnum)) 0 s0"
    by (simp add: jobs_cmd_fg_def Let_def s0_def)
  have s0: "nums s0 = nums s" "next_job_number s0 = next_job_number s"
    by (simp_all add: s0_def nums_def)
  note k = fg_wait_keeps [of rounds "nat (select_job s jobnum)" 0 s0]
  note rm = remove_keeps [of "nums s" "nat (select_job s jobnum)"]
  from k have nx: "next_job_number (snd (jobs_cmd_fg rounds jobnum s)) = next_job_number s"
    unfolding r by (simp add: s0)
  from k have "nums (snd (jobs_cmd_fg rounds jobnum s)) = nums s
      \<or> nums (snd (jobs_cmd_fg rounds jobnum s))
          = take (nat (select_job s jobnum)) (nums s) @ drop (Suc (nat (select_job s jobnum))) (nums s)"
    unfolding r by (simp add: s0)
  then show ?thesis
  proof
    assume "nums (snd (jobs_cmd_fg rounds jobnum s)) = nums s"
    with nx show ?thesis by simp
  next
    assume "nums (snd (jobs_cmd_fg rounds jobnum s))
          = take (nat (select_job s jobnum)) (nums s) @ drop (Suc (nat (select_job s jobnum))) (nums s)"
    with nx rm show ?thesis by simp
  qed
qed

lemma jobs_cmd_bg_keeps:
  "next_job_number (snd (jobs_cmd_bg jobnum s)) = next_job_number s
   \<and> nums (snd (jobs_cmd_bg jobnum s)) = nums s"
  by (simp add: jobs_cmd_bg_def Let_def nums_def nums_update)

lemma poll_job_num: "job_num (fst (poll_job w j)) = job_num j"
proof -
  obtain jk ad where f: "fold (poll_stage w) [0..<nat (npids j)] (j, True) = (jk, ad)"
    by (cases "fold (poll_stage w) [0..<nat (npids j)] (j, True)")
  from poll_fold_frame [OF f] f show ?thesis
    by (simp add: poll_job_def)
qed

lemma jobs_poll_keeps:
  "next_job_number (jobs_poll w s) = next_job_number s
   \<and> (sorted_wrt (<) (nums s) \<longrightarrow> sorted_wrt (<) (nums (jobs_poll w s)))
   \<and> set (nums (jobs_poll w s)) \<subseteq> set (nums s)"
proof -
  have n: "nums (jobs_poll w s) = map job_num (filter (\<lambda>j. \<not> snd (poll_job w j)) (bg_jobs s))"
    by (simp add: jobs_poll_def poll_jobs_filter nums_def poll_job_num comp_def)
  have nx: "next_job_number (jobs_poll w s) = next_job_number s"
    by (simp add: jobs_poll_def poll_jobs_filter)
  have srt: "sorted_wrt (<) (nums (jobs_poll w s))" if "sorted_wrt (<) (nums s)"
  proof -
    from that have "sorted_wrt (\<lambda>a b. job_num a < job_num b) (bg_jobs s)"
      by (simp add: nums_def sorted_wrt_map)
    then have "sorted_wrt (\<lambda>a b. job_num a < job_num b)
                 (filter (\<lambda>j. \<not> snd (poll_job w j)) (bg_jobs s))"
      by (rule sorted_wrt_filter)
    then show ?thesis
      by (simp add: n sorted_wrt_map)
  qed
  from srt n nx show ?thesis
    by (auto simp: nums_def)
qed

text \<open>
  One call either registers nothing, or appends one entry that carries the value of
  the counter and increments the counter as a 32-bit \<^verbatim>\<open>int\<close>.  The number is reported
  to the caller unless it is -1, the value that also stands for a refusal.
\<close>

lemma do_call_cases:
  "do_call c s = (ns, r, s1) \<Longrightarrow>
     (ns = [] \<and> next_job_number s1 = next_job_number s
        \<and> (sorted_wrt (<) (nums s) \<longrightarrow> sorted_wrt (<) (nums s1))
        \<and> set (nums s1) \<subseteq> set (nums s))
   \<or> (ns = (if next_job_number s \<noteq> - 1 then [next_job_number s] else [])
        \<and> next_job_number s1 = to_int32 (next_job_number s + 1)
        \<and> nums s1 = nums s @ [next_job_number s])"
proof (cases c)
  case (Add_background ps count names)
  assume dc: "do_call c s = (ns, r, s1)"
  from dc Add_background show ?thesis
    by (auto simp: jobs_add_background_def Let_def nums_def split: if_splits)
next
  case (Set_foreground pgid ps count name)
  assume dc: "do_call c s = (ns, r, s1)"
  from dc Set_foreground show ?thesis
    by (auto simp: jobs_set_foreground_def Let_def nums_def)
next
  case Clear_foreground
  assume dc: "do_call c s = (ns, r, s1)"
  from dc Clear_foreground show ?thesis
    by (auto simp: jobs_clear_foreground_def nums_def)
next
  case Move_foreground_to_background
  assume dc: "do_call c s = (ns, r, s1)"
  from dc Move_foreground_to_background show ?thesis
    by (auto simp: jobs_move_foreground_to_background_stopped_def jobs_clear_foreground_def
        Let_def nums_def split: if_splits)
next
  case (Poll w)
  assume dc: "do_call c s = (ns, r, s1)"
  from dc Poll jobs_poll_keeps [of w s] show ?thesis
    by auto
next
  case (Cmd_fg rounds jobnum)
  assume dc: "do_call c s = (ns, r, s1)"
  from dc Cmd_fg jobs_cmd_fg_keeps [of rounds jobnum s] show ?thesis
    by (auto split: prod.splits)
next
  case (Cmd_bg jobnum)
  assume dc: "do_call c s = (ns, r, s1)"
  from dc Cmd_bg jobs_cmd_bg_keeps [of jobnum s] show ?thesis
    by (auto split: prod.splits)
qed

text \<open>
  Once the counter has wrapped to \<^verbatim>\<open>INT_MIN\<close>, calls that hand out no number leave
  it there and only take entries out of the table.
\<close>

lemma wrapped_quiet:
  "next_job_number s = - 2147483648 \<Longrightarrow> do_calls cs s = ([], s') \<Longrightarrow>
     (sorted_wrt (<) (nums s) \<longrightarrow> sorted_wrt (<) (nums s')) \<and> set (nums s') \<subseteq> set (nums s)"
proof (induction cs arbitrary: s)
  case Nil
  then show ?case by simp
next
  case (Cons c cs)
  obtain ns r s1 where dc: "do_call c s = (ns, r, s1)"
    by (cases "do_call c s")
  have quiet: "ns = []"
    using Cons.prems(2) dc by (cases r) (auto split: prod.splits)
  from do_call_cases [OF dc] quiet Cons.prems(1)
  have st: "next_job_number s1 = - 2147483648"
    "sorted_wrt (<) (nums s) \<longrightarrow> sorted_wrt (<) (nums s1)" "set (nums s1) \<subseteq> set (nums s)"
    by auto
  show ?case
  proof (cases r)
    case False
    with Cons.prems(2) dc have "s' = s1" by simp
    with st show ?thesis by simp
  next
    case True
    with Cons.prems(2) dc quiet have rest: "do_calls cs s1 = ([], s')"
      by (auto split: prod.splits)
    from Cons.IH [OF st(1) rest] st show ?thesis
      by auto
  qed
qed

lemma do_calls_numbers:
  "table_ok s \<Longrightarrow> do_calls cs s = (issued, s') \<Longrightarrow>
     next_job_number s + int (length issued) \<le> 2147483648 \<Longrightarrow>
     issued = map (\<lambda>k. next_job_number s + int k) [0..<length issued]
   \<and> sorted_wrt (<) (nums s')
   \<and> set (nums s') \<subseteq> set (nums s) \<union> set issued
   \<and> (next_job_number s + int (length issued) \<le> 2147483647 \<longrightarrow>
        next_job_number s' = next_job_number s + int (length issued))"
proof (induction cs arbitrary: s issued s')
  case Nil
  then show ?case by (simp add: table_ok_nums)
next
  case (Cons c cs)
  obtain ns r s1 where dc: "do_call c s = (ns, r, s1)"
    by (cases "do_call c s")
  from Cons.prems(1) have ok: "1 \<le> next_job_number s" "next_job_number s \<le> 2147483647"
    "sorted_wrt (<) (nums s)" "\<forall>n\<in>set (nums s). n < next_job_number s"
    by (simp_all add: table_ok_nums)
  from do_call_cases [OF dc] show ?case
  proof (elim disjE conjE)
    assume q: "ns = []" "next_job_number s1 = next_job_number s"
      "sorted_wrt (<) (nums s) \<longrightarrow> sorted_wrt (<) (nums s1)" "set (nums s1) \<subseteq> set (nums s)"
    with ok have ok1: "table_ok s1"
      by (auto simp: table_ok_nums)
    show ?thesis
    proof (cases r)
      case False
      with Cons.prems(2) dc q have "issued = []" "s' = s1"
        by simp_all
      with q ok show ?thesis
        by auto
    next
      case True
      with Cons.prems(2) dc q have rest: "do_calls cs s1 = (issued, s')"
        by (auto split: prod.splits)
      from Cons.prems(3) q have bound: "next_job_number s1 + int (length issued) \<le> 2147483648"
        by simp
      from Cons.IH [OF ok1 rest bound] q show ?thesis
        by auto
    qed
  next
    assume "ns = (if next_job_number s \<noteq> - 1 then [next_job_number s] else [])"
      and nx: "next_job_number s1 = to_int32 (next_job_number s + 1)"
      and tb: "nums s1 = nums s @ [next_job_number s]"
    with ok have ns: "ns = [next_job_number s]"
      by simp
    from tb ok have srt1: "sorted_wrt (<) (nums s1)"
      by (simp add: sorted_wrt_append)
    obtain ms where iss: "issued = next_job_number s # ms"
      using Cons.prems(2) dc ns by (cases r) (auto split: prod.splits)
    have shift: "map (\<lambda>k. next_job_number s + int k) [0..<Suc (length ms)]
          = next_job_number s # map (\<lambda>k. next_job_number s + 1 + int k) [0..<length ms]"
      by (simp add: upt_conv_Cons map_Suc_upt [symmetric] del: upt_Suc)
    show ?thesis
    proof (cases r)
      case False
      with Cons.prems(2) dc ns have e: "issued = [next_job_number s]" "s' = s1"
        by simp_all
      from e srt1 tb nx ok show ?thesis
        by (auto simp: to_int32_small)
    next
      case True
      with Cons.prems(2) dc ns iss have rest: "do_calls cs s1 = (ms, s')"
        by (auto split: prod.splits)
      show ?thesis
      proof (cases "next_job_number s < 2147483647")
        case room: True
        with ok nx have nx1: "next_job_number s1 = next_job_number s + 1"
          by (simp add: to_int32_small)
        with ok room srt1 tb have ok1: "table_ok s1"
          by (auto simp: table_ok_nums)
        from Cons.prems(3) iss nx1 have bound: "next_job_number s1 + int (length ms) \<le> 2147483648"
          by simp
        from Cons.IH [OF ok1 rest bound] iss nx1 tb shift show ?thesis
          by auto
      next
        case False
        with ok have top: "next_job_number s = 2147483647"
          by simp
        with Cons.prems(3) iss have none: "ms = []"
          by simp
        from nx top have w: "next_job_number s1 = - 2147483648"
          by (simp add: to_int32_wrap)
        from wrapped_quiet [OF w rest [unfolded none]] srt1 tb
        have "sorted_wrt (<) (nums s')" "set (nums s') \<subseteq> set (nums s) \<union> {next_job_number s}"
          by auto
        with iss none top show ?thesis
          by simp
      qed
    qed
  qed
qed

text \<open>
  C4, up to the capacity of the counter.  Job numbers come from a counter that starts
  at 1 and is incremented by every registration.  Whatever calls are made on the job
  table from the start of the shell, in whatever order (registrations, demotions of
  the foreground job, sweeps of the poller, fg, bg), as long as no more than
  \<open>2\<^sup>3\<^sup>1 - 1\<close> = 2147483647 numbers are handed out, the numbers handed out are
  1, 2, 3, ... in this order: each is greater than all before it, so none is ever
  handed out twice, whether or not its job has been removed in between.  The entries
  of the table carry numbers that were handed out, increasing from front to back, and
  below the limit the counter is one more than the last number.
\<close>

theorem job_numbers_increase_and_are_never_reused:
  "do_calls cs shell_init = (issued, s') \<Longrightarrow> length issued \<le> 2147483647 \<Longrightarrow>
     issued = map int [1..<Suc (length issued)]
   \<and> sorted_wrt (<) issued \<and> distinct issued
   \<and> sorted_wrt (<) (nums s')
   \<and> set (nums s') \<subseteq> set issued
   \<and> (length issued < 2147483647 \<longrightarrow> next_job_number s' = 1 + int (length issued))"
proof -
  assume run: "do_calls cs shell_init = (issued, s')" and cap: "length issued \<le> 2147483647"
  have ok: "table_ok shell_init"
    by (simp add: table_ok_def shell_init_def)
  have start: "next_job_number shell_init = 1" "nums shell_init = []"
    by (simp_all add: shell_init_def nums_def)
  from cap have bound: "next_job_number shell_init + int (length issued) \<le> 2147483648"
    by (simp add: start)
  have shift: "map (\<lambda>k. 1 + int k) [0..<n] = map int [1..<Suc n]" for n
    by (simp add: map_Suc_upt [symmetric] del: upt_Suc)
  note N = do_calls_numbers [OF ok run bound]
  from N start shift [of "length issued"]
  have iss: "issued = map int [1..<Suc (length issued)]"
    by simp
  have inc: "sorted_wrt (<) (map int [1..<Suc n])" for n
    by (simp add: sorted_wrt_map del: upt_Suc)
  have dis: "distinct (map int [1..<Suc n])" for n
    by (simp add: distinct_map del: upt_Suc)
  from inc [of "length issued"] dis [of "length issued"] iss
  have mono: "sorted_wrt (<) issued" "distinct issued"
    by simp_all
  from N start have rest: "sorted_wrt (<) (nums s')" "set (nums s') \<subseteq> set issued"
    "length issued < 2147483647 \<longrightarrow> next_job_number s' = 1 + int (length issued)"
    by simp_all
  from iss mono rest show ?thesis
    by blast
qed

theorem job_numbers_increase_and_are_never_reused_witness:
  "fst (do_calls register_remove_register shell_init) = [1, 2, 3, 4]
   \<and> nums (snd (do_calls register_remove_register shell_init)) = [1, 3, 4]
   \<and> next_job_number (snd (do_calls register_remove_register shell_init)) = 5
   \<and> length (fst (do_calls register_remove_register shell_init)) \<le> 2147483647
   \<and> fst (do_calls register_remove_register shell_init)
       = map int [1..<Suc (length (fst (do_calls register_remove_register shell_init)))]"
proof -
  have run: "do_calls register_remove_register shell_init
      = (fst (do_calls register_remove_register shell_init),
         snd (do_calls register_remove_register shell_init))"
    by simp
  have issued: "fst (do_calls register_remove_register shell_init) = [1, 2, 3, 4]"
    by (simp add: register_remove_register_def shell_init_def jobs_add_background_def
        bg_job_count_def MAX_BG_JOBS_def Let_def name_at_def jobs_poll_def poll_job_def
        poll_stage_def second_exits_def upt_values replicate_values to_int32_def)
  have table: "nums (snd (do_calls register_remove_register shell_init)) = [1, 3, 4]"
    by (simp add: register_remove_register_def shell_init_def jobs_add_background_def
        bg_job_count_def MAX_BG_JOBS_def Let_def name_at_def jobs_poll_def poll_job_def
        poll_stage_def second_exits_def upt_values replicate_values nums_def to_int32_def)
  have len: "length (fst (do_calls register_remove_register shell_init)) \<le> 2147483647"
    by (simp add: issued)
  from job_numbers_increase_and_are_never_reused [OF run len] issued table len show ?thesis
    by simp
qed

lemma churn_Suc:
  "churn (Suc n) = Add_background [4711] 1 None # Poll (\<lambda>p. W_Exited 0) # churn n"
  by (simp add: churn_def)

lemma churn_round:
  assumes "bg_jobs s = []" and "next_job_number s \<noteq> - 1"
  shows "\<exists>s2. bg_jobs s2 = [] \<and> next_job_number s2 = to_int32 (next_job_number s + 1)
           \<and> (\<forall>cs. do_calls (Add_background [4711] 1 None # Poll (\<lambda>p. W_Exited 0) # cs) s
                     = (next_job_number s # fst (do_calls cs s2), snd (do_calls cs s2)))"
proof -
  define s1 where "s1 = snd (snd (jobs_add_background [4711] 1 None s))"
  define s2 where "s2 = jobs_poll (\<lambda>p. W_Exited 0) s1"
  have a: "jobs_add_background [4711] 1 None s = (next_job_number s, Some 4711, s1)"
    using assms(1)
    by (simp add: s1_def jobs_add_background_def bg_job_count_def MAX_BG_JOBS_def Let_def)
  have e: "bg_jobs s2 = []"
    using assms(1)
    by (simp add: s2_def s1_def jobs_add_background_def bg_job_count_def MAX_BG_JOBS_def Let_def
        jobs_poll_def poll_job_def poll_stage_def upt_values replicate_values name_at_def)
  have n: "next_job_number s2 = to_int32 (next_job_number s + 1)"
    using assms(1)
    by (simp add: s2_def s1_def jobs_add_background_def bg_job_count_def MAX_BG_JOBS_def Let_def
        jobs_poll_def case_prod_beta)
  have run: "do_calls (Add_background [4711] 1 None # Poll (\<lambda>p. W_Exited 0) # cs) s
                     = (next_job_number s # fst (do_calls cs s2), snd (do_calls cs s2))" for cs
    using assms(2) by (simp add: a s2_def case_prod_beta)
  from e n run show ?thesis
    by blast
qed

lemma churn_numbers:
  "bg_jobs s = [] \<Longrightarrow> n = 0 \<or> 1 \<le> next_job_number s \<and> next_job_number s + int n \<le> 2147483648 \<Longrightarrow>
     \<exists>s2. bg_jobs s2 = [] \<and> (n \<noteq> 0 \<longrightarrow> next_job_number s2 = to_int32 (next_job_number s + int n))
         \<and> (\<forall>cs. do_calls (churn n @ cs) s
                   = (map (\<lambda>k. next_job_number s + int k) [0..<n] @ fst (do_calls cs s2),
                      snd (do_calls cs s2)))"
proof (induction n arbitrary: s)
  case 0
  then show ?case
    by (intro exI [of _ s]) (simp add: churn_def)
next
  case (Suc n)
  from Suc.prems(2) have c: "1 \<le> next_job_number s" "next_job_number s + int (Suc n) \<le> 2147483648"
    by simp_all
  then have c1: "next_job_number s \<noteq> - 1"
    by simp
  obtain s1 where s1: "bg_jobs s1 = []" "next_job_number s1 = to_int32 (next_job_number s + 1)"
    "\<And>cs. do_calls (Add_background [4711] 1 None # Poll (\<lambda>p. W_Exited 0) # cs) s
            = (next_job_number s # fst (do_calls cs s1), snd (do_calls cs s1))"
    using churn_round [OF Suc.prems(1) c1] by blast
  have shift: "map (\<lambda>k. next_job_number s + int k) [0..<Suc n]
          = next_job_number s # map (\<lambda>k. next_job_number s + 1 + int k) [0..<n]"
    by (simp add: upt_conv_Cons map_Suc_upt [symmetric] del: upt_Suc)
  show ?case
  proof (cases "n = 0")
    case True
    have "do_calls (churn (Suc n) @ cs) s
        = (map (\<lambda>k. next_job_number s + int k) [0..<Suc n] @ fst (do_calls cs s1),
           snd (do_calls cs s1))" for cs
      using s1(3) [of cs] True by (simp add: churn_Suc churn_def)
    with s1 True show ?thesis
      by (intro exI [of _ s1]) simp
  next
    case False
    with c have small: "next_job_number s + 1 \<le> 2147483647"
      by simp
    with c s1(2) have n1: "next_job_number s1 = next_job_number s + 1"
      by (simp add: to_int32_small)
    with c have pre: "n = 0 \<or> 1 \<le> next_job_number s1 \<and> next_job_number s1 + int n \<le> 2147483648"
      by simp
    obtain s2 where s2: "bg_jobs s2 = []"
      "n \<noteq> 0 \<longrightarrow> next_job_number s2 = to_int32 (next_job_number s1 + int n)"
      "\<And>cs. do_calls (churn n @ cs) s1
              = (map (\<lambda>k. next_job_number s1 + int k) [0..<n] @ fst (do_calls cs s2),
                 snd (do_calls cs s2))"
      using Suc.IH [OF s1(1) pre] by blast
    have run: "do_calls (churn (Suc n) @ cs) s
        = (map (\<lambda>k. next_job_number s + int k) [0..<Suc n] @ fst (do_calls cs s2),
           snd (do_calls cs s2))" for cs
      using s1(3) [of "churn n @ cs"] s2(3) [of cs] n1
      by (simp only: churn_Suc append_Cons shift fst_conv snd_conv)
    have nx: "next_job_number s2 = to_int32 (next_job_number s + int (Suc n))"
      using s2(2) False n1 by (simp add: add.assoc)
    from s2(1) nx run show ?thesis
      by (intro exI [of _ s2]) simp
  qed
qed

text \<open>
  The claim as the specification words it fails once the counter has run through the
  positive values of a 32-bit \<^verbatim>\<open>int\<close>.  After 2147483647 registrations, each followed
  by the removal of the job, the numbers 1 to 2147483647 have been handed out and the
  counter has wrapped; the next job registered gets the number -2147483648, which
  is smaller than every number handed out before it.
\<close>

theorem job_counter_wraps_after_int_max:
  "fst (do_calls (churn 2147483647 @ [Add_background [4711] 1 None]) shell_init)
     = map (\<lambda>k. 1 + int k) [0..<2147483647] @ [- 2147483648]
   \<and> \<not> sorted_wrt (<) (fst (do_calls (churn 2147483647 @ [Add_background [4711] 1 None]) shell_init))"
proof -
  have e: "bg_jobs shell_init = []" and c: "next_job_number shell_init = 1"
    by (simp_all add: shell_init_def)
  have pre: "(2147483647::nat) = 0
      \<or> 1 \<le> next_job_number shell_init \<and> next_job_number shell_init + int 2147483647 \<le> 2147483648"
    by (simp add: c)
  obtain s2 where s2: "bg_jobs s2 = []"
    "next_job_number s2 = to_int32 (next_job_number shell_init + int 2147483647)"
    "\<And>cs. do_calls (churn 2147483647 @ cs) shell_init
            = (map (\<lambda>k. next_job_number shell_init + int k) [0..<2147483647] @ fst (do_calls cs s2),
               snd (do_calls cs s2))"
    using churn_numbers [OF e pre] by auto
  from s2(2) have w: "next_job_number s2 = - 2147483648"
    by (simp add: c to_int32_def)
  have last: "fst (do_calls [Add_background [4711] 1 None] s2) = [- 2147483648]"
    using s2(1) w
    by (simp add: jobs_add_background_def bg_job_count_def MAX_BG_JOBS_def Let_def)
  have run: "fst (do_calls (churn 2147483647 @ [Add_background [4711] 1 None]) shell_init)
     = map (\<lambda>k. 1 + int k) [0..<2147483647] @ [- 2147483648]"
    by (simp only: s2(3) fst_conv last c)
  have first: "(1::int) \<in> set (map (\<lambda>k. 1 + int k) [0..<2147483647])"
  proof -
    have "(0::nat) \<in> set [0..<2147483647]"
      by (simp only: set_upt atLeastLessThan_iff) simp
    then have "1 + int 0 \<in> (\<lambda>k. 1 + int k) ` set [0..<2147483647]"
      by (rule imageI)
    then show ?thesis
      by (simp only: set_map) simp
  qed
  have "\<not> sorted_wrt (<) (map (\<lambda>k. 1 + int k) [0..<2147483647] @ [- 2147483648])"
  proof
    assume "sorted_wrt (<) (map (\<lambda>k. 1 + int k) [0..<2147483647] @ [- 2147483648])"
    then have "\<forall>x\<in>set (map (\<lambda>k. 1 + int k) [0..<2147483647]). x < - 2147483648"
      by (simp only: sorted_wrt_append) simp
    with first show False
      by fastforce
  qed
  with run show ?thesis
    by (simp only: simp_thms)
qed

subsection \<open>The synchronous pipeline\<close>

lemma launch_loop_all_forked:
  "\<forall>i\<in>set js. \<not> pipe_fails e i \<and> 0 < fork_ret e i \<Longrightarrow>
     length (ln_pids (launch_loop e m s n js st)) = length (ln_pids st)
   \<and> (\<forall>j. j \<in> set js \<and> j < length (ln_pids st) \<longrightarrow>
          ln_pids (launch_loop e m s n js st) ! j = fork_ret e j)
   \<and> (\<forall>j. j \<notin> set js \<longrightarrow> ln_pids (launch_loop e m s n js st) ! j = ln_pids st ! j)
   \<and> ln_status (launch_loop e m s n js st) = ln_status st
   \<and> ln_pgid (launch_loop e m s n js st)
       = (if ln_pgid st = - 1 \<and> js \<noteq> [] then fork_ret e (hd js) else ln_pgid st)"
proof (induction js arbitrary: st)
  case Nil
  then show ?case by simp
next
  case (Cons i js)
  let ?st1 = "st\<lparr>ln_pids := (ln_pids st)[i := fork_ret e i],
                 ln_pgid := (if ln_pgid st = - 1 then fork_ret e i else ln_pgid st),
                 ln_prev_read := (if Suc i < n then Some i else None),
                 ln_children := ln_children st @
                   [\<lparr>cd_mode = m, cd_stage = i, cd_prev_read = ln_prev_read st,
                     cd_pipe_write = (if Suc i < n then Some i else None), cd_image = s\<rparr>]\<rparr>"
  from Cons.prems have ok: "\<not> pipe_fails e i" "0 < fork_ret e i"
    and rest: "\<forall>i\<in>set js. \<not> pipe_fails e i \<and> 0 < fork_ret e i"
    by simp_all
  from ok have step: "launch_loop e m s n (i # js) st = launch_loop e m s n js ?st1"
    by (simp add: Let_def)
  note ih = Cons.IH [OF rest, of ?st1]
  have pg: "ln_pgid ?st1 \<noteq> - 1"
    using ok by simp
  have len: "length (ln_pids (launch_loop e m s n js ?st1)) = length (ln_pids st)"
    using ih by simp
  have inside: "ln_pids (launch_loop e m s n js ?st1) ! j = fork_ret e j"
    if "j \<in> set (i # js) \<and> j < length (ln_pids st)" for j
  proof (cases "j \<in> set js")
    case True
    with ih that show ?thesis by simp
  next
    case False
    with that have "j = i" by simp
    with ih False that show ?thesis by simp
  qed
  have outside: "ln_pids (launch_loop e m s n js ?st1) ! j = ln_pids st ! j"
    if "j \<notin> set (i # js)" for j
    using ih that by simp
  have stat: "ln_status (launch_loop e m s n js ?st1) = ln_status st"
    using ih by simp
  have pgid: "ln_pgid (launch_loop e m s n js ?st1)
       = (if ln_pgid st = - 1 \<and> i # js \<noteq> [] then fork_ret e (hd (i # js)) else ln_pgid st)"
    using ih pg by simp
  from len inside outside stat pgid show ?case
    unfolding step by blast
qed

lemma wait_loop_answered:
  "\<forall>i\<in>set js. 0 < ps ! i \<and> sync_wait e (ps ! i) \<noteq> None \<Longrightarrow> distinct js \<Longrightarrow>
     fw_blocked (wait_loop e ps n js v) = fw_blocked v
   \<and> fw_calls (wait_loop e ps n js v) = fw_calls v @ map (\<lambda>i. Waitpid (ps ! i) {WUNTRACED}) js
   \<and> fw_stopped (wait_loop e ps n js v)
       = (fw_stopped v \<or> (\<exists>i\<in>set js. sync_wait e (ps ! i) = Some W_Stopped))
   \<and> fw_status (wait_loop e ps n js v)
       = (if \<exists>i\<in>set js. Suc i = n \<and> sync_wait e (ps ! i) \<noteq> Some W_Nochange
               \<and> sync_wait e (ps ! i) \<noteq> Some W_Error \<and> sync_wait e (ps ! i) \<noteq> Some W_Stopped
          then sync_status (the (sync_wait e (ps ! (n - 1)))) else fw_status v)"
proof (induction js arbitrary: v)
  case Nil
  then show ?case by simp
next
  case (Cons i js)
  from Cons.prems obtain r where pos: "0 < ps ! i" and r: "sync_wait e (ps ! i) = Some r"
    by auto
  from Cons.prems have rest: "\<forall>i\<in>set js. 0 < ps ! i \<and> sync_wait e (ps ! i) \<noteq> None"
    and d: "distinct js" and ni: "i \<notin> set js"
    by simp_all
  let ?v1 = "v\<lparr>fw_calls := fw_calls v @ [Waitpid (ps ! i) {WUNTRACED}]\<rparr>"
  from ni have later: "\<not> (\<exists>k\<in>set js. Suc k = n) \<or> Suc i \<noteq> n"
    by auto
  consider (skip) "r = W_Nochange \<or> r = W_Error"
    | (stop) "r = W_Stopped"
    | (last) "r \<noteq> W_Nochange" "r \<noteq> W_Error" "r \<noteq> W_Stopped" "Suc i = n"
    | (other) "r \<noteq> W_Nochange" "r \<noteq> W_Error" "r \<noteq> W_Stopped" "Suc i \<noteq> n"
    by blast
  then show ?case
  proof cases
    case skip
    then have step: "wait_loop e ps n (i # js) v = wait_loop e ps n js ?v1"
      using pos r by auto
    from Cons.IH [OF rest d, of ?v1] skip r show ?thesis
      unfolding step by auto
  next
    case stop
    then have step: "wait_loop e ps n (i # js) v = wait_loop e ps n js (?v1\<lparr>fw_stopped := True\<rparr>)"
      using pos r by simp
    from Cons.IH [OF rest d, of "?v1\<lparr>fw_stopped := True\<rparr>"] stop r show ?thesis
      unfolding step by auto
  next
    case last
    then have step: "wait_loop e ps n (i # js) v
        = wait_loop e ps n js (?v1\<lparr>fw_status := sync_status r\<rparr>)"
      using pos r by simp
    from last(4) ni have no: "\<not> (\<exists>k\<in>set js. Suc k = n)"
      by auto
    from last(4) have idx: "n - 1 = i" by auto
    from Cons.IH [OF rest d, of "?v1\<lparr>fw_status := sync_status r\<rparr>"] last r no idx show ?thesis
      unfolding step by auto
  next
    case other
    then have step: "wait_loop e ps n (i # js) v = wait_loop e ps n js ?v1"
      using pos r by simp
    from Cons.IH [OF rest d, of ?v1] other r show ?thesis
      unfolding step by auto
  qed
qed

lemma launch_all:
  assumes "\<forall>i<n. \<not> pipe_fails e i \<and> 0 < fork_ret e i" and "0 < n"
  shows "ln_pids (launch_loop e m s n [0..<n]
            \<lparr>ln_pids = replicate n (- 1), ln_pgid = - 1, ln_prev_read = None,
             ln_status = 0, ln_children = [], ln_broken = False\<rparr>) = map (fork_ret e) [0..<n]"
    and "ln_pgid (launch_loop e m s n [0..<n]
            \<lparr>ln_pids = replicate n (- 1), ln_pgid = - 1, ln_prev_read = None,
             ln_status = 0, ln_children = [], ln_broken = False\<rparr>) = fork_ret e 0"
    and "ln_status (launch_loop e m s n [0..<n]
            \<lparr>ln_pids = replicate n (- 1), ln_pgid = - 1, ln_prev_read = None,
             ln_status = 0, ln_children = [], ln_broken = False\<rparr>) = 0"
proof -
  let ?st = "\<lparr>ln_pids = replicate n (- 1), ln_pgid = - 1, ln_prev_read = None,
             ln_status = 0, ln_children = [], ln_broken = False\<rparr>"
  from assms(1) have all: "\<forall>i\<in>set [0..<n]. \<not> pipe_fails e i \<and> 0 < fork_ret e i"
    by simp
  note L = launch_loop_all_forked [OF all, of m s n ?st]
  from L have len: "length (ln_pids (launch_loop e m s n [0..<n] ?st)) = n"
    by simp
  from L have nth: "ln_pids (launch_loop e m s n [0..<n] ?st) ! j = fork_ret e j" if "j < n" for j
    using that by simp
  from len nth show "ln_pids (launch_loop e m s n [0..<n] ?st) = map (fork_ret e) [0..<n]"
    by (simp add: list_eq_iff_nth_eq)
  from assms(2) have "[0..<n] \<noteq> []" "hd [0..<n] = 0"
    by (simp_all add: hd_upt)
  with L show "ln_pgid (launch_loop e m s n [0..<n] ?st) = fork_ret e 0"
    by simp
  from L show "ln_status (launch_loop e m s n [0..<n] ?st) = 0"
    by simp
qed

lemma wait_all:
  assumes "\<forall>i<n. 0 < fork_ret e i \<and> sync_wait e (fork_ret e i) \<noteq> None" and "0 < n"
  shows "wait_loop e (map (fork_ret e) [0..<n]) n [0..<n]
           \<lparr>fw_stopped = False, fw_status = 0, fw_calls = [], fw_blocked = False\<rparr>
         = \<lparr>fw_stopped = (\<exists>i<n. sync_wait e (fork_ret e i) = Some W_Stopped),
            fw_status = (if sync_wait e (fork_ret e (n - 1)) \<noteq> Some W_Nochange
                           \<and> sync_wait e (fork_ret e (n - 1)) \<noteq> Some W_Error
                           \<and> sync_wait e (fork_ret e (n - 1)) \<noteq> Some W_Stopped
                         then sync_status (the (sync_wait e (fork_ret e (n - 1)))) else 0),
            fw_calls = map (\<lambda>p. Waitpid p {WUNTRACED}) (map (fork_ret e) [0..<n]),
            fw_blocked = False\<rparr>"
proof -
  let ?ps = "map (fork_ret e) [0..<n]"
  let ?v = "\<lparr>fw_stopped = False, fw_status = 0, fw_calls = [], fw_blocked = False\<rparr>"
  from assms(1) have all: "\<forall>i\<in>set [0..<n]. 0 < ?ps ! i \<and> sync_wait e (?ps ! i) \<noteq> None"
    by simp
  note W = wait_loop_answered [OF all, of n ?v]
  have d: "distinct [0..<n]" by simp
  have calls: "map (\<lambda>i. Waitpid (?ps ! i) {WUNTRACED}) [0..<n] = map (\<lambda>p. Waitpid p {WUNTRACED}) ?ps"
    by simp
  have stopped: "(\<exists>i\<in>set [0..<n]. sync_wait e (?ps ! i) = Some W_Stopped)
      = (\<exists>i<n. sync_wait e (fork_ret e i) = Some W_Stopped)"
    by auto
  from assms(2) have lastn: "?ps ! (n - 1) = fork_ret e (n - 1)"
    by simp
  have lastc: "(\<exists>i\<in>set [0..<n]. Suc i = n \<and> sync_wait e (?ps ! i) \<noteq> Some W_Nochange
               \<and> sync_wait e (?ps ! i) \<noteq> Some W_Error \<and> sync_wait e (?ps ! i) \<noteq> Some W_Stopped)
      = (sync_wait e (fork_ret e (n - 1)) \<noteq> Some W_Nochange
           \<and> sync_wait e (fork_ret e (n - 1)) \<noteq> Some W_Error
           \<and> sync_wait e (fork_ret e (n - 1)) \<noteq> Some W_Stopped)"
  proof
    assume "\<exists>i\<in>set [0..<n]. Suc i = n \<and> sync_wait e (?ps ! i) \<noteq> Some W_Nochange
               \<and> sync_wait e (?ps ! i) \<noteq> Some W_Error \<and> sync_wait e (?ps ! i) \<noteq> Some W_Stopped"
    then obtain i where i: "i < n" "Suc i = n" "sync_wait e (?ps ! i) \<noteq> Some W_Nochange"
      "sync_wait e (?ps ! i) \<noteq> Some W_Error" "sync_wait e (?ps ! i) \<noteq> Some W_Stopped"
      by auto
    then have "i = n - 1" by simp
    with i show "sync_wait e (fork_ret e (n - 1)) \<noteq> Some W_Nochange
           \<and> sync_wait e (fork_ret e (n - 1)) \<noteq> Some W_Error
           \<and> sync_wait e (fork_ret e (n - 1)) \<noteq> Some W_Stopped"
      by simp
  next
    assume a: "sync_wait e (fork_ret e (n - 1)) \<noteq> Some W_Nochange
           \<and> sync_wait e (fork_ret e (n - 1)) \<noteq> Some W_Error
           \<and> sync_wait e (fork_ret e (n - 1)) \<noteq> Some W_Stopped"
    from assms(2) have "n - 1 \<in> set [0..<n]" "Suc (n - 1) = n" by simp_all
    with a lastn show "\<exists>i\<in>set [0..<n]. Suc i = n \<and> sync_wait e (?ps ! i) \<noteq> Some W_Nochange
               \<and> sync_wait e (?ps ! i) \<noteq> Some W_Error \<and> sync_wait e (?ps ! i) \<noteq> Some W_Stopped"
      by (intro bexI [of _ "n - 1"]) simp_all
  qed
  have eq: "wait_loop e ?ps n [0..<n] ?v
      = \<lparr>fw_stopped = fw_stopped (wait_loop e ?ps n [0..<n] ?v),
         fw_status = fw_status (wait_loop e ?ps n [0..<n] ?v),
         fw_calls = fw_calls (wait_loop e ?ps n [0..<n] ?v),
         fw_blocked = fw_blocked (wait_loop e ?ps n [0..<n] ?v)\<rparr>"
    by simp
  show ?thesis
    apply (subst eq)
    using W [OF d] calls stopped lastc lastn
    apply (simp only: fw.simps simp_thms append_Nil)
    done
qed







subsection \<open>The two wait loops\<close>

lemma fg_stage_calls:
  "lv_calls (fg_stage w i v)
     = lv_calls v @ (if finished (lv_job v) ! i then []
                     else [Waitpid (pids (lv_job v) ! i) fg_flags])"
  by (simp add: fg_stage_def Let_def split: wait_result.splits)

lemma fg_stage_finished:
  "j \<noteq> i \<Longrightarrow> finished (lv_job (fg_stage w i v)) ! j = finished (lv_job v) ! j"
  by (simp add: fg_stage_def Let_def split: wait_result.splits)

lemma fg_fold_calls:
  "lv_calls (fold (fg_stage w) [0..<k] v)
     = lv_calls v @ map (\<lambda>i. Waitpid (pids (lv_job v) ! i) fg_flags)
                      (filter (\<lambda>i. \<not> finished (lv_job v) ! i) [0..<k])
   \<and> (\<forall>j\<ge>k. finished (lv_job (fold (fg_stage w) [0..<k] v)) ! j = finished (lv_job v) ! j)"
proof (induction k)
  case 0
  then show ?case by simp
next
  case (Suc k)
  let ?vk = "fold (fg_stage w) [0..<k] v"
  have step: "fold (fg_stage w) [0..<Suc k] v = fg_stage w k ?vk"
    by simp
  have fr: "pids (lv_job ?vk) = pids (lv_job v)"
    using fg_fold_frame [of w "[0..<k]" v] by simp
  from Suc.IH have fk: "finished (lv_job ?vk) ! k = finished (lv_job v) ! k"
    by simp
  have calls: "lv_calls (fg_stage w k ?vk)
      = lv_calls v @ map (\<lambda>i. Waitpid (pids (lv_job v) ! i) fg_flags)
                       (filter (\<lambda>i. \<not> finished (lv_job v) ! i) [0..<Suc k])"
    using Suc.IH by (simp add: fg_stage_calls fr fk)
  have later: "\<forall>j\<ge>Suc k. finished (lv_job (fg_stage w k ?vk)) ! j = finished (lv_job v) ! j"
    using Suc.IH by (simp add: fg_stage_finished)
  from calls later show ?case
    unfolding step by blast
qed

text \<open>
  One round of the loop of \<^verbatim>\<open>fg\<close> asks exactly once, without blocking, about every
  stage that was not marked finished when the round began, in stage order.
\<close>

lemma fg_round_waits:
  "lv_calls (fg_round w job sc)
     = map (\<lambda>i. Waitpid (pids job ! i) fg_flags)
         (filter (\<lambda>i. \<not> finished job ! i) [0..<nat (npids job)])"
  using fg_fold_calls [of w "nat (npids job)"
      "\<lparr>lv_job = job, lv_all_done = True, lv_stopped = False, lv_status_code = sc, lv_calls = []\<rparr>"]
  by (simp add: fg_round_def)

lemma polls_round:
  "sorted_wrt (<) js \<Longrightarrow> \<forall>j\<in>set js. k \<le> j \<and> j < length ps \<Longrightarrow> WNOHANG \<in> fl \<Longrightarrow>
     (\<And>k'. polls ps k' rest) \<Longrightarrow> polls ps k (map (\<lambda>j. Waitpid (ps ! j) fl) js @ rest)"
proof (induction js arbitrary: k)
  case Nil
  then show ?case by simp
next
  case (Cons j js)
  from Cons.prems(1) have srt: "sorted_wrt (<) js" and above: "\<forall>x\<in>set js. j < x"
    by simp_all
  from Cons.prems(2) above have bounds: "\<forall>x\<in>set js. Suc j \<le> x \<and> x < length ps"
    by auto
  have tail: "polls ps (Suc j) (map (\<lambda>j. Waitpid (ps ! j) fl) js @ rest)"
    using Cons.IH [OF srt bounds Cons.prems(3) Cons.prems(4)] .
  from Cons.prems(2) have here: "j \<in> set [k..<length ps]"
    by simp
  from here tail Cons.prems(3) show ?case
    by (auto simp: list_ex_iff)
qed

lemma round_polls:
  assumes "\<And>k'. polls (map ((!) (pids job)) [0..<nat (npids job)]) k' rest"
  shows "polls (map ((!) (pids job)) [0..<nat (npids job)]) 0 (lv_calls (fg_round w job sc) @ rest)"
proof -
  let ?n = "nat (npids job)"
  let ?ps = "map ((!) (pids job)) [0..<?n]"
  let ?js = "filter (\<lambda>i. \<not> finished job ! i) [0..<?n]"
  have srt: "sorted_wrt (<) ?js"
    by (rule sorted_wrt_filter) simp
  have bounds: "\<forall>j\<in>set ?js. 0 \<le> j \<and> j < length ?ps"
    by simp
  have same: "map (\<lambda>i. Waitpid (pids job ! i) fg_flags) ?js = map (\<lambda>j. Waitpid (?ps ! j) fg_flags) ?js"
    by (rule map_cong) simp_all
  have fl: "WNOHANG \<in> fg_flags"
    by (simp add: fg_flags_def)
  from polls_round [OF srt bounds fl assms] show ?thesis
    by (simp only: fg_round_waits same)
qed

lemma round_nonblocking: "list_all nonblocking (lv_calls (fg_round w job sc))"
  by (simp add: fg_round_waits list_all_iff fg_flags_def)

lemma fg_wait_calls:
  "\<exists>new. sys (snd (fg_wait ws idx sc s)) = sys s @ new \<and> list_all nonblocking new
        \<and> polls (map ((!) (pids (bg_jobs s ! idx))) [0..<nat (npids (bg_jobs s ! idx))]) 0 new"
proof (induction ws arbitrary: sc s)
  case Nil
  then show ?case by simp
next
  case (Cons w ws)
  let ?job = "bg_jobs s ! idx"
  let ?ps = "map ((!) (pids ?job)) [0..<nat (npids ?job)]"
  let ?v = "fg_round w ?job sc"
  let ?s1 = "s\<lparr>bg_jobs := (bg_jobs s)[idx := lv_job ?v], sys := sys s @ lv_calls ?v\<rparr>"
  note nb = round_nonblocking [of w ?job sc]
  have ended: "polls ?ps 0 (lv_calls ?v @ [Tcsetpgrp Own_group])"
    by (rule round_polls) simp
  show ?case
  proof (cases "lv_stopped ?v \<or> lv_all_done ?v")
    case True
    then have "sys (snd (fg_wait (w # ws) idx sc s)) = sys s @ (lv_calls ?v @ [Tcsetpgrp Own_group])"
      by (auto simp: Let_def)
    moreover have "list_all nonblocking (lv_calls ?v @ [Tcsetpgrp Own_group])"
      using nb by simp
    ultimately show ?thesis
      using ended by blast
  next
    case False
    let ?s2 = "?s1\<lparr>sys := sys ?s1 @ [Nanosleep 30000000]\<rparr>"
    have same: "npids (bg_jobs ?s2 ! idx) = npids ?job" "pids (bg_jobs ?s2 ! idx) = pids ?job"
      using fg_round_frame [of w ?job sc]
      by (cases "idx < length (bg_jobs s)"; simp add: list_update_beyond)+
    obtain new where new: "sys (snd (fg_wait ws idx (lv_status_code ?v) ?s2)) = sys ?s2 @ new"
      "list_all nonblocking new"
      "polls (map ((!) (pids (bg_jobs ?s2 ! idx))) [0..<nat (npids (bg_jobs ?s2 ! idx))]) 0 new"
      using Cons.IH [of "lv_status_code ?v" ?s2] by blast
    from new(3) have next_round: "polls ?ps 0 new"
      by (simp only: same)
    from False have step: "fg_wait (w # ws) idx sc s = fg_wait ws idx (lv_status_code ?v) ?s2"
      by (simp add: Let_def)
    have "sys (snd (fg_wait (w # ws) idx sc s))
        = sys s @ (lv_calls ?v @ Nanosleep 30000000 # new)"
      unfolding step using new(1) by simp
    moreover have "list_all nonblocking (lv_calls ?v @ Nanosleep 30000000 # new)"
      using nb new(2) by simp
    moreover have "polls ?ps 0 (lv_calls ?v @ Nanosleep 30000000 # new)"
      by (rule round_polls) (simp add: next_round)
    ultimately show ?thesis by blast
  qed
qed

lemma jobs_cmd_fg_calls:
  "\<exists>new. sys (snd (jobs_cmd_fg rounds jobnum s)) = sys s @ new \<and> list_all nonblocking new
        \<and> polls (map ((!) (pids (bg_jobs s ! nat (select_job s jobnum))))
                   [0..<nat (npids (bg_jobs s ! nat (select_job s jobnum)))]) 0 new"
proof (cases "select_job s jobnum < 0 \<or> pids (bg_jobs s ! nat (select_job s jobnum)) ! 0 \<le> 0")
  case True
  then have "sys (snd (jobs_cmd_fg rounds jobnum s)) = sys s @ []"
    by (auto simp: jobs_cmd_fg_def Let_def)
  then show ?thesis
    by (intro exI [of _ "[]"]) simp
next
  case False
  let ?job = "bg_jobs s ! nat (select_job s jobnum)"
  let ?pre = "[Tcsetpgrp (Group (pids ?job ! 0))] @
              (if list_ex (\<lambda>i. stopped ?job ! i) [0..<nat (npids ?job)]
               then [Kill (- (pids ?job ! 0)) SIGCONT] else [])"
  let ?s0 = "s\<lparr>out := out s @ [cmd_name ?job], sys := sys s @ ?pre\<rparr>"
  from False have r: "jobs_cmd_fg rounds jobnum s = fg_wait rounds (nat (select_job s jobnum)) 0 ?s0"
    by (simp add: jobs_cmd_fg_def Let_def)
  obtain new where new: "sys (snd (fg_wait rounds (nat (select_job s jobnum)) 0 ?s0)) = sys ?s0 @ new"
    "list_all nonblocking new"
    "polls (map ((!) (pids (bg_jobs ?s0 ! nat (select_job s jobnum))))
              [0..<nat (npids (bg_jobs ?s0 ! nat (select_job s jobnum)))]) 0 new"
    using fg_wait_calls [of rounds "nat (select_job s jobnum)" 0 ?s0] by blast
  have "sys (snd (jobs_cmd_fg rounds jobnum s)) = sys s @ (?pre @ new)"
    using new(1) by (simp add: r)
  moreover have "list_all nonblocking (?pre @ new)"
    using new(2) by simp
  moreover have "polls (map ((!) (pids ?job)) [0..<nat (npids ?job)]) 0 (?pre @ new)"
    using new(3) by simp
  ultimately show ?thesis by blast
qed

lemma wait_loop_calls:
  "\<exists>ws. fw_calls (wait_loop e ps n js v) = fw_calls v @ ws \<and> list_all blocking_style ws"
proof (induction js arbitrary: v)
  case Nil
  then show ?case by simp
next
  case (Cons i js)
  let ?v1 = "v\<lparr>fw_calls := fw_calls v @ [Waitpid (ps ! i) {WUNTRACED}]\<rparr>"
  have cases: "wait_loop e ps n (i # js) v = wait_loop e ps n js v
      \<or> wait_loop e ps n (i # js) v = ?v1\<lparr>fw_blocked := True\<rparr>
      \<or> (\<exists>v2. wait_loop e ps n (i # js) v = wait_loop e ps n js v2
               \<and> fw_calls v2 = fw_calls v @ [Waitpid (ps ! i) {WUNTRACED}])"
    by (auto simp: Let_def split: option.splits)
  then show ?case
  proof (elim disjE exE conjE)
    assume "wait_loop e ps n (i # js) v = wait_loop e ps n js v"
    with Cons.IH [of v] show ?thesis by simp
  next
    assume "wait_loop e ps n (i # js) v = ?v1\<lparr>fw_blocked := True\<rparr>"
    then have "fw_calls (wait_loop e ps n (i # js) v) = fw_calls v @ [Waitpid (ps ! i) {WUNTRACED}]"
      by simp
    then show ?thesis
      by (intro exI [of _ "[Waitpid (ps ! i) {WUNTRACED}]"]) simp
  next
    fix v2
    assume a: "wait_loop e ps n (i # js) v = wait_loop e ps n js v2"
      "fw_calls v2 = fw_calls v @ [Waitpid (ps ! i) {WUNTRACED}]"
    obtain ws where ws: "fw_calls (wait_loop e ps n js v2) = fw_calls v2 @ ws"
      "list_all blocking_style ws"
      using Cons.IH [of v2] by blast
    from a ws have "fw_calls (wait_loop e ps n (i # js) v)
        = fw_calls v @ (Waitpid (ps ! i) {WUNTRACED} # ws)"
      by simp
    moreover have "list_all blocking_style (Waitpid (ps ! i) {WUNTRACED} # ws)"
      using ws(2) by simp
    ultimately show ?thesis by blast
  qed
qed

text \<open>
  The system calls of \<open>run_pipeline\<close>: the terminal goes to the process group of the
  pipeline, the wait loop issues its waits, and unless one of them never returns the
  terminal is taken back.
\<close>

lemma run_pipeline_sys:
  assumes "pl \<noteq> []"
  shows "sys (fst (snd (run_pipeline e pl s)))
     = sys s @ [Tcsetpgrp (Group (ln_pgid (launch_loop e Foreground s (length pl) [0..<length pl]
              \<lparr>ln_pids = replicate (length pl) (- 1), ln_pgid = - 1, ln_prev_read = None,
               ln_status = 0, ln_children = [], ln_broken = False\<rparr>)))] @
       fw_calls (wait_loop e (ln_pids (launch_loop e Foreground s (length pl) [0..<length pl]
              \<lparr>ln_pids = replicate (length pl) (- 1), ln_pgid = - 1, ln_prev_read = None,
               ln_status = 0, ln_children = [], ln_broken = False\<rparr>)) (length pl) [0..<length pl]
              \<lparr>fw_stopped = False,
               fw_status = ln_status (launch_loop e Foreground s (length pl) [0..<length pl]
              \<lparr>ln_pids = replicate (length pl) (- 1), ln_pgid = - 1, ln_prev_read = None,
               ln_status = 0, ln_children = [], ln_broken = False\<rparr>),
               fw_calls = [], fw_blocked = False\<rparr>) @
       (if fw_blocked (wait_loop e (ln_pids (launch_loop e Foreground s (length pl) [0..<length pl]
              \<lparr>ln_pids = replicate (length pl) (- 1), ln_pgid = - 1, ln_prev_read = None,
               ln_status = 0, ln_children = [], ln_broken = False\<rparr>)) (length pl) [0..<length pl]
              \<lparr>fw_stopped = False,
               fw_status = ln_status (launch_loop e Foreground s (length pl) [0..<length pl]
              \<lparr>ln_pids = replicate (length pl) (- 1), ln_pgid = - 1, ln_prev_read = None,
               ln_status = 0, ln_children = [], ln_broken = False\<rparr>),
               fw_calls = [], fw_blocked = False\<rparr>)
        then [] else [Tcsetpgrp Own_group])"
proof -
  have mv: "sys (snd (jobs_move_foreground_to_background_stopped t)) = sys t" for t
    by (simp add: jobs_move_foreground_to_background_stopped_def jobs_clear_foreground_def Let_def)
  from assms show ?thesis
    by (simp add: run_pipeline_def Let_def jobs_set_foreground_def jobs_clear_foreground_def
        case_prod_beta mv)
qed

lemma run_pipeline_calls:
  "\<exists>new. sys (fst (snd (run_pipeline e pl s))) = sys s @ new \<and> list_all blocking_style new"
proof (cases "pl = []")
  case True
  then have "sys (fst (snd (run_pipeline e pl s))) = sys s @ []"
    by (simp add: run_pipeline_def)
  then show ?thesis
    by (intro exI [of _ "[]"]) simp
next
  case False
  let ?n = "length pl"
  let ?l = "launch_loop e Foreground s ?n [0..<?n]
              \<lparr>ln_pids = replicate ?n (- 1), ln_pgid = - 1, ln_prev_read = None,
               ln_status = 0, ln_children = [], ln_broken = False\<rparr>"
  let ?v = "wait_loop e (ln_pids ?l) ?n [0..<?n]
              \<lparr>fw_stopped = False, fw_status = ln_status ?l, fw_calls = [], fw_blocked = False\<rparr>"
  obtain ws where ws: "fw_calls ?v = ws" "list_all blocking_style ws"
    using wait_loop_calls [of e "ln_pids ?l" ?n "[0..<?n]"
        "\<lparr>fw_stopped = False, fw_status = ln_status ?l, fw_calls = [], fw_blocked = False\<rparr>"]
    by auto
  have "list_all blocking_style ([Tcsetpgrp (Group (ln_pgid ?l))] @ fw_calls ?v @
          (if fw_blocked ?v then [] else [Tcsetpgrp Own_group]))"
    using ws by simp
  with run_pipeline_sys [OF False, of e s] show ?thesis
    by blast
qed

text \<open>
  When every stage was forked and every wait returns, \<open>run_pipeline\<close> issues exactly
  one \<^verbatim>\<open>waitpid\<close> for each stage, in stage order, each with the flag \<^verbatim>\<open>WUNTRACED\<close>
  alone.
\<close>

lemma run_pipeline_one_wait_per_stage:
  assumes ne: "pl \<noteq> []"
    and launched: "\<forall>i<length pl. \<not> pipe_fails e i \<and> 0 < fork_ret e i"
    and answered: "\<forall>i<length pl. sync_wait e (fork_ret e i) \<noteq> None"
  shows "sys (fst (snd (run_pipeline e pl s)))
     = sys s @ [Tcsetpgrp (Group (fork_ret e 0))] @
       map (\<lambda>i. Waitpid (fork_ret e i) {WUNTRACED}) [0..<length pl] @ [Tcsetpgrp Own_group]"
proof -
  from ne have pos: "0 < length pl" by simp
  note L = launch_all [OF launched pos, of Foreground s]
  from launched answered
  have both: "\<forall>i<length pl. 0 < fork_ret e i \<and> sync_wait e (fork_ret e i) \<noteq> None"
    by simp
  note W = wait_all [OF both pos]
  show ?thesis
    by (simp only: run_pipeline_sys [OF ne] L W fw.simps if_False map_map comp_def)
qed

text \<open>
  C3, as the code has it.  The wait loop of an \<^verbatim>\<open>fg\<close> resumption never blocks.  The
  system calls \<open>jobs_cmd_fg\<close> adds to those made before are all non-blocking, and they
  poll the job by rounds: between two sleeps the waits go through the stages in stage
  order with at most one wait for a stage, and every sleep lasts exactly 30 ms; this
  holds for every number of rounds, whether or not the call has returned by then.  One
  round issues exactly one \<^verbatim>\<open>waitpid\<close> with the flags \<^verbatim>\<open>WUNTRACED|WCONTINUED|WNOHANG\<close>
  for every stage not marked finished when the round begins, in stage order.  A round
  in which no stage is found stopped while some stage is still there is followed by a
  sleep of 30 ms and the next round; a round that finds a stage stopped, or every stage
  gone, ends the loop, and the terminal is taken back.  The wait loop of a freshly
  launched synchronous pipeline waits the other way: every \<^verbatim>\<open>waitpid\<close> that
  \<open>run_pipeline\<close> issues has the flag \<^verbatim>\<open>WUNTRACED\<close> alone, so it blocks until the stage
  changes state, and \<open>run_pipeline\<close> never sleeps; when every stage was forked and
  every wait returns, there is exactly one such wait for each stage, in stage order.
\<close>

theorem fg_polls_and_run_pipeline_blocks:
  "take (length (sys s)) (sys (snd (jobs_cmd_fg rounds jobnum s))) = sys s
   \<and> list_all nonblocking (drop (length (sys s)) (sys (snd (jobs_cmd_fg rounds jobnum s))))
   \<and> polls (map ((!) (pids (bg_jobs s ! nat (select_job s jobnum))))
              [0..<nat (npids (bg_jobs s ! nat (select_job s jobnum)))]) 0
        (drop (length (sys s)) (sys (snd (jobs_cmd_fg rounds jobnum s))))
   \<and> lv_calls (fg_round w job sc)
       = map (\<lambda>i. Waitpid (pids job ! i) {WUNTRACED, WCONTINUED, WNOHANG})
           (filter (\<lambda>i. \<not> finished job ! i) [0..<nat (npids job)])
   \<and> (\<not> lv_stopped (fg_round w (bg_jobs s ! idx) sc)
        \<and> \<not> lv_all_done (fg_round w (bg_jobs s ! idx) sc) \<longrightarrow>
      fg_wait (w # ws) idx sc s
        = fg_wait ws idx (lv_status_code (fg_round w (bg_jobs s ! idx) sc))
            (s\<lparr>bg_jobs := (bg_jobs s)[idx := lv_job (fg_round w (bg_jobs s ! idx) sc)],
               sys := sys s @ lv_calls (fg_round w (bg_jobs s ! idx) sc) @ [Nanosleep 30000000]\<rparr>))
   \<and> (lv_stopped (fg_round w (bg_jobs s ! idx) sc)
        \<or> lv_all_done (fg_round w (bg_jobs s ! idx) sc) \<longrightarrow>
      sys (snd (fg_wait (w # ws) idx sc s))
        = sys s @ lv_calls (fg_round w (bg_jobs s ! idx) sc) @ [Tcsetpgrp Own_group])
   \<and> take (length (sys s)) (sys (fst (snd (run_pipeline e pl s)))) = sys s
   \<and> list_all blocking_style (drop (length (sys s)) (sys (fst (snd (run_pipeline e pl s)))))
   \<and> (pl \<noteq> []
        \<and> list_all (\<lambda>i. \<not> pipe_fails e i \<and> 0 < fork_ret e i \<and> sync_wait e (fork_ret e i) \<noteq> None)
             [0..<length pl] \<longrightarrow>
      sys (fst (snd (run_pipeline e pl s)))
        = sys s @ [Tcsetpgrp (Group (fork_ret e 0))] @
          map (\<lambda>i. Waitpid (fork_ret e i) {WUNTRACED}) [0..<length pl] @ [Tcsetpgrp Own_group])"
proof -
  obtain new where new: "sys (snd (jobs_cmd_fg rounds jobnum s)) = sys s @ new"
    "list_all nonblocking new"
    "polls (map ((!) (pids (bg_jobs s ! nat (select_job s jobnum))))
              [0..<nat (npids (bg_jobs s ! nat (select_job s jobnum)))]) 0 new"
    using jobs_cmd_fg_calls [of rounds jobnum s] by blast
  obtain bl where bl: "sys (fst (snd (run_pipeline e pl s))) = sys s @ bl"
    "list_all blocking_style bl"
    using run_pipeline_calls [of e pl s] by blast
  have round: "lv_calls (fg_round w job sc)
       = map (\<lambda>i. Waitpid (pids job ! i) {WUNTRACED, WCONTINUED, WNOHANG})
           (filter (\<lambda>i. \<not> finished job ! i) [0..<nat (npids job)])"
    by (simp add: fg_round_waits fg_flags_def)
  have sleep: "\<not> lv_stopped (fg_round w (bg_jobs s ! idx) sc)
        \<and> \<not> lv_all_done (fg_round w (bg_jobs s ! idx) sc) \<longrightarrow>
      fg_wait (w # ws) idx sc s
        = fg_wait ws idx (lv_status_code (fg_round w (bg_jobs s ! idx) sc))
            (s\<lparr>bg_jobs := (bg_jobs s)[idx := lv_job (fg_round w (bg_jobs s ! idx) sc)],
               sys := sys s @ lv_calls (fg_round w (bg_jobs s ! idx) sc) @ [Nanosleep 30000000]\<rparr>)"
    by (simp add: Let_def)
  have ends: "lv_stopped (fg_round w (bg_jobs s ! idx) sc)
        \<or> lv_all_done (fg_round w (bg_jobs s ! idx) sc) \<longrightarrow>
      sys (snd (fg_wait (w # ws) idx sc s))
        = sys s @ lv_calls (fg_round w (bg_jobs s ! idx) sc) @ [Tcsetpgrp Own_group]"
    by (auto simp: Let_def)
  have exact: "pl \<noteq> []
        \<and> list_all (\<lambda>i. \<not> pipe_fails e i \<and> 0 < fork_ret e i \<and> sync_wait e (fork_ret e i) \<noteq> None)
             [0..<length pl] \<longrightarrow>
      sys (fst (snd (run_pipeline e pl s)))
        = sys s @ [Tcsetpgrp (Group (fork_ret e 0))] @
          map (\<lambda>i. Waitpid (fork_ret e i) {WUNTRACED}) [0..<length pl] @ [Tcsetpgrp Own_group]"
  proof
    assume a: "pl \<noteq> []
        \<and> list_all (\<lambda>i. \<not> pipe_fails e i \<and> 0 < fork_ret e i \<and> sync_wait e (fork_ret e i) \<noteq> None)
             [0..<length pl]"
    then have launched: "\<forall>i<length pl. \<not> pipe_fails e i \<and> 0 < fork_ret e i"
      and answered: "\<forall>i<length pl. sync_wait e (fork_ret e i) \<noteq> None"
      by (simp_all add: list_all_iff)
    from a have ne: "pl \<noteq> []" by simp
    from run_pipeline_one_wait_per_stage [OF ne launched answered]
    show "sys (fst (snd (run_pipeline e pl s)))
        = sys s @ [Tcsetpgrp (Group (fork_ret e 0))] @
          map (\<lambda>i. Waitpid (fork_ret e i) {WUNTRACED}) [0..<length pl] @ [Tcsetpgrp Own_group]" .
  qed
  have fgp: "take (length (sys s)) (sys (snd (jobs_cmd_fg rounds jobnum s))) = sys s"
    "list_all nonblocking (drop (length (sys s)) (sys (snd (jobs_cmd_fg rounds jobnum s))))"
    "polls (map ((!) (pids (bg_jobs s ! nat (select_job s jobnum))))
              [0..<nat (npids (bg_jobs s ! nat (select_job s jobnum)))]) 0
        (drop (length (sys s)) (sys (snd (jobs_cmd_fg rounds jobnum s))))"
    using new by simp_all
  have rpp: "take (length (sys s)) (sys (fst (snd (run_pipeline e pl s)))) = sys s"
    "list_all blocking_style (drop (length (sys s)) (sys (fst (snd (run_pipeline e pl s)))))"
    using bl by simp_all
  from fgp round sleep ends rpp exact show ?thesis
    by blast
qed

theorem fg_polls_and_run_pipeline_blocks_witness:
  "sys (snd (jobs_cmd_fg later_exit 3 two_jobs))
     = [Tcsetpgrp (Group 13), Waitpid 13 {WUNTRACED, WCONTINUED, WNOHANG}, Nanosleep 30000000,
        Waitpid 13 {WUNTRACED, WCONTINUED, WNOHANG}, Tcsetpgrp Own_group]
   \<and> fst (jobs_cmd_fg later_exit 3 two_jobs) = Some 0
   \<and> list_all nonblocking (sys (snd (jobs_cmd_fg later_exit 3 two_jobs)))
   \<and> polls [13] 0 (sys (snd (jobs_cmd_fg later_exit 3 two_jobs)))
   \<and> lv_calls (fg_round (\<lambda>p. W_Nochange) (job_of 3 [13] ''cat &'') 0)
       = [Waitpid 13 {WUNTRACED, WCONTINUED, WNOHANG}]
   \<and> \<not> lv_stopped (fg_round (\<lambda>p. W_Nochange) (bg_jobs two_jobs ! 1) 0)
   \<and> \<not> lv_all_done (fg_round (\<lambda>p. W_Nochange) (bg_jobs two_jobs ! 1) 0)
   \<and> fg_wait [\<lambda>p. W_Nochange] 1 0 two_jobs
       = (None, two_jobs\<lparr>sys := [Waitpid 13 {WUNTRACED, WCONTINUED, WNOHANG},
                                      Nanosleep 30000000]\<rparr>)
   \<and> lv_all_done (fg_round (\<lambda>p. W_Exited 0) (bg_jobs two_jobs ! 1) 0)
   \<and> sys (snd (fg_wait [\<lambda>p. W_Exited 0] 1 0 two_jobs))
       = [Waitpid 13 {WUNTRACED, WCONTINUED, WNOHANG}, Tcsetpgrp Own_group]
   \<and> sleep_5 \<noteq> []
   \<and> list_all (\<lambda>i. \<not> pipe_fails calm_os i \<and> 0 < fork_ret calm_os i
                  \<and> sync_wait calm_os (fork_ret calm_os i) \<noteq> None) [0..<length sleep_5]
   \<and> sys (fst (snd (run_pipeline calm_os sleep_5 two_jobs)))
       = [Tcsetpgrp (Group 100), Waitpid 100 {WUNTRACED}, Tcsetpgrp Own_group]
   \<and> list_all blocking_style (sys (fst (snd (run_pipeline calm_os sleep_5 two_jobs))))"
proof -
  note T = fg_polls_and_run_pipeline_blocks
    [where s = two_jobs and rounds = later_exit and jobnum = 3 and e = calm_os and pl = sleep_5]
  have s0: "sys two_jobs = []"
    by (simp add: two_jobs_def shell_init_def)
  have sel: "select_job two_jobs 3 = 1"
    by (simp add: select_job_def find_job_index_def two_jobs_def job_of_def shell_init_def)
  have ps: "map ((!) (pids (bg_jobs two_jobs ! nat (select_job two_jobs 3))))
              [0..<nat (npids (bg_jobs two_jobs ! nat (select_job two_jobs 3)))] = [13]"
    by (simp add: sel) (simp add: two_jobs_def job_of_def upt_values)
  have run: "jobs_cmd_fg later_exit 3 two_jobs
     = (Some 0, two_jobs\<lparr>bg_jobs := [job_of 1 [11] ''sleep 100 &''],
                         out := [''cat &''],
                         sys := [Tcsetpgrp (Group 13), Waitpid 13 {WUNTRACED, WCONTINUED, WNOHANG},
                                 Nanosleep 30000000,
                                 Waitpid 13 {WUNTRACED, WCONTINUED, WNOHANG},
                                 Tcsetpgrp Own_group]\<rparr>)"
    by (simp add: jobs_cmd_fg_def sel Let_def)
       (simp add: two_jobs_def shell_init_def job_of_def later_exit_def fg_round_def
          fg_stage_def fg_flags_def exit_class_def Let_def upt_values replicate_values)
  have j3: "bg_jobs two_jobs ! Suc 0 = job_of 3 [13] ''cat &''"
    by (simp add: two_jobs_def)
  have rd: "lv_calls (fg_round (\<lambda>p. W_Nochange) (job_of 3 [13] ''cat &'') 0)
       = [Waitpid 13 {WUNTRACED, WCONTINUED, WNOHANG}]"
    using fg_polls_and_run_pipeline_blocks
      [where w = "\<lambda>p. W_Nochange" and job = "job_of 3 [13] ''cat &''" and sc = 0,
       THEN conjunct2, THEN conjunct2, THEN conjunct2, THEN conjunct1]
    by (simp add: job_of_def upt_values replicate_values)
  have idle: "\<not> lv_stopped (fg_round (\<lambda>p. W_Nochange) (bg_jobs two_jobs ! 1) 0)
       \<and> \<not> lv_all_done (fg_round (\<lambda>p. W_Nochange) (bg_jobs two_jobs ! 1) 0)"
    by (simp add: j3 job_of_def fg_round_def fg_stage_def upt_values replicate_values Let_def)
  have unchanged: "lv_job (fg_round (\<lambda>p. W_Nochange) (job_of 3 [13] ''cat &'') 0)
       = job_of 3 [13] ''cat &''"
    by (simp add: job_of_def fg_round_def fg_stage_def upt_values replicate_values Let_def)
  have sl: "fg_wait [\<lambda>p. W_Nochange] 1 0 two_jobs
       = (None, two_jobs\<lparr>sys := [Waitpid 13 {WUNTRACED, WCONTINUED, WNOHANG},
                                      Nanosleep 30000000]\<rparr>)"
    using fg_polls_and_run_pipeline_blocks
      [where w = "\<lambda>p. W_Nochange" and s = two_jobs and idx = 1 and sc = 0 and ws = "[]",
       THEN conjunct2, THEN conjunct2, THEN conjunct2, THEN conjunct2, THEN conjunct1,
       THEN mp, OF idle]
    by (simp add: j3 rd unchanged s0) (simp add: two_jobs_def)
  have gone: "lv_all_done (fg_round (\<lambda>p. W_Exited 0) (bg_jobs two_jobs ! 1) 0)"
    by (simp add: j3 job_of_def fg_round_def fg_stage_def upt_values replicate_values Let_def)
  have rd2: "lv_calls (fg_round (\<lambda>p. W_Exited 0) (job_of 3 [13] ''cat &'') 0)
       = [Waitpid 13 {WUNTRACED, WCONTINUED, WNOHANG}]"
    using fg_polls_and_run_pipeline_blocks
      [where w = "\<lambda>p. W_Exited 0" and job = "job_of 3 [13] ''cat &''" and sc = 0,
       THEN conjunct2, THEN conjunct2, THEN conjunct2, THEN conjunct1]
    by (simp add: job_of_def upt_values replicate_values)
  have en: "sys (snd (fg_wait [\<lambda>p. W_Exited 0] 1 0 two_jobs))
       = [Waitpid 13 {WUNTRACED, WCONTINUED, WNOHANG}, Tcsetpgrp Own_group]"
    using fg_polls_and_run_pipeline_blocks
      [where w = "\<lambda>p. W_Exited 0" and s = two_jobs and idx = 1 and sc = 0 and ws = "[]",
       THEN conjunct2, THEN conjunct2, THEN conjunct2, THEN conjunct2, THEN conjunct2,
       THEN conjunct1, THEN mp, OF disjI2, OF gone]
    by (simp add: j3 rd2 s0)
  have len: "length sleep_5 = 1" and ne: "sleep_5 \<noteq> []"
    by (simp_all add: sleep_5_def)
  have forked: "list_all (\<lambda>i. \<not> pipe_fails calm_os i \<and> 0 < fork_ret calm_os i
                  \<and> sync_wait calm_os (fork_ret calm_os i) \<noteq> None) [0..<length sleep_5]"
    by (simp add: len upt_values calm_os_def)
  have fr: "fork_ret calm_os 0 = 100"
    by (simp add: calm_os_def)
  have trace: "sys (fst (snd (run_pipeline calm_os sleep_5 two_jobs)))
       = [Tcsetpgrp (Group 100), Waitpid 100 {WUNTRACED}, Tcsetpgrp Own_group]"
    using T [THEN conjunct2, THEN conjunct2, THEN conjunct2, THEN conjunct2, THEN conjunct2,
             THEN conjunct2, THEN conjunct2, THEN conjunct2, THEN mp, OF conjI, OF ne forked]
    by (simp add: s0 len upt_values fr)
  have nb: "list_all nonblocking (sys (snd (jobs_cmd_fg later_exit 3 two_jobs)))"
    using T [THEN conjunct2, THEN conjunct1] by (simp add: s0)
  have po: "polls [13] 0 (sys (snd (jobs_cmd_fg later_exit 3 two_jobs)))"
    using T [THEN conjunct2, THEN conjunct2, THEN conjunct1] by (simp only: ps s0 list.size drop_0)
  have bs: "list_all blocking_style (sys (fst (snd (run_pipeline calm_os sleep_5 two_jobs))))"
    using T [THEN conjunct2, THEN conjunct2, THEN conjunct2, THEN conjunct2, THEN conjunct2,
             THEN conjunct2, THEN conjunct2, THEN conjunct1]
    by (simp add: s0)
  from idle have idle1: "\<not> lv_stopped (fg_round (\<lambda>p. W_Nochange) (bg_jobs two_jobs ! 1) 0)"
    and idle2: "\<not> lv_all_done (fg_round (\<lambda>p. W_Nochange) (bg_jobs two_jobs ! 1) 0)"
    by simp_all
  from run have r1: "sys (snd (jobs_cmd_fg later_exit 3 two_jobs))
     = [Tcsetpgrp (Group 13), Waitpid 13 {WUNTRACED, WCONTINUED, WNOHANG}, Nanosleep 30000000,
        Waitpid 13 {WUNTRACED, WCONTINUED, WNOHANG}, Tcsetpgrp Own_group]"
    and r2: "fst (jobs_cmd_fg later_exit 3 two_jobs) = Some 0"
    by simp_all
  from r1 r2 nb po rd idle1 idle2 sl gone en ne forked trace bs show ?thesis
    by (simp only: simp_thms)
qed

text \<open>
  The claim as the specification words it fails for a freshly launched pipeline:
  \<^verbatim>\<open>sleep 5\<close> run in the foreground is waited for by one \<^verbatim>\<open>waitpid\<close> without
  \<^verbatim>\<open>WNOHANG\<close>, and the shell does not sleep.
\<close>

theorem run_pipeline_wait_is_blocking:
  "sys (fst (snd (run_pipeline calm_os sleep_5 shell_init)))
     = [Tcsetpgrp (Group 100), Waitpid 100 {WUNTRACED}, Tcsetpgrp Own_group]
   \<and> \<not> nonblocking (Waitpid 100 {WUNTRACED})
   \<and> \<not> list_all nonblocking (sys (fst (snd (run_pipeline calm_os sleep_5 shell_init))))"
  by (simp add: run_pipeline_def sleep_5_def calm_os_def shell_init_def Let_def
      jobs_set_foreground_def first_name_def jobs_clear_foreground_def MAX_CMDS_def
      sync_status_def)

end
